theory Spec2Isabelle
  imports Complex_Main "HOL-Library.Signed_Division"
begin

section \<open>Shape traits of an expression (MatrixBase.h)\<close>

text \<open>
  Every expression type carries its extents twice: as compile-time constants
  (\<open>RowsAtCompileTime\<close>, \<open>ColsAtCompileTime\<close>, the constant \<open>Dynamic\<close> standing for
  "not known before run time") and as the run-time values returned by \<open>rows()\<close> and
  \<open>cols()\<close>.  The constant \<open>Dynamic\<close> is declared outside the files at hand, so every
  definition that mentions it takes its value as the parameter \<open>Dynamic\<close>.
  Extents are C++ \<open>int\<close>s, modelled as integers; \<open>representable\<close> is the range of a
  32-bit \<open>int\<close>, and \<open>cpp_int n\<close> is the value that the machine computes for an \<open>int\<close>
  expression whose mathematical value is \<open>n\<close>: it wraps around in two's complement
  (C++ leaves signed overflow undefined).
\<close>

record shape =
  RowsAtCompileTime :: int
  ColsAtCompileTime :: int
  rows :: int
  cols :: int

definition representable :: "int \<Rightarrow> bool" where
  "representable n = (- 2147483648 \<le> n \<and> n \<le> 2147483647)"

definition cpp_int :: "int \<Rightarrow> int" where
  "cpp_int n = (n + 2147483648) mod 4294967296 - 2147483648"

text \<open>
  \<open>MatrixBase::Traits::SizeAtCompileTime\<close>.  The product is an enumerator, a constant
  expression: a program compiles only if it is representable, and the definition is
  the mathematical product.
\<close>

definition SizeAtCompileTime :: "int \<Rightarrow> 'z shape_scheme \<Rightarrow> int" where
  "SizeAtCompileTime Dynamic e =
     (if RowsAtCompileTime e = Dynamic \<or> ColsAtCompileTime e = Dynamic then Dynamic
      else RowsAtCompileTime e * ColsAtCompileTime e)"

text \<open>\<open>MatrixBase::Traits::IsVectorAtCompileTime\<close>.\<close>

definition IsVectorAtCompileTime :: "'z shape_scheme \<Rightarrow> bool" where
  "IsVectorAtCompileTime e = (RowsAtCompileTime e = 1 \<or> ColsAtCompileTime e = 1)"

text \<open>\<open>MatrixBase::size()\<close> and \<open>MatrixBase::isVector()\<close>.\<close>

definition size_e :: "'z shape_scheme \<Rightarrow> int" where
  "size_e e = cpp_int (rows e * cols e)"

definition isVector :: "'z shape_scheme \<Rightarrow> bool" where
  "isVector e = (rows e = 1 \<or> cols e = 1)"

text \<open>
  An expression type is consistent when each extent that is fixed at compile time is
  the extent the object reports at run time, and the run-time extents are \<open>int\<close>s
  that are not negative.
\<close>

definition consistent :: "int \<Rightarrow> 'z shape_scheme \<Rightarrow> bool" where
  "consistent Dynamic e =
     ((RowsAtCompileTime e = Dynamic \<or> RowsAtCompileTime e = rows e) \<and>
      (ColsAtCompileTime e = Dynamic \<or> ColsAtCompileTime e = cols e) \<and>
      0 \<le> rows e \<and> 0 \<le> cols e \<and> representable (rows e) \<and> representable (cols e))"

section \<open>The assignment engine (OperatorEquals.h)\<close>

text \<open>
  Failed assertions (\<open>ei_assert\<close>, \<open>eigen_assert\<close>) and the undefined behaviour the
  solver's code can reach are values of the type \<open>error\<close>: a violated shape assertion
  is \<open>DimensionMismatch\<close>, a violated initialisation assertion is \<open>NotInitialized\<close>,
  following a null matrix pointer is \<open>NullPointer\<close>, and reading through a reference
  whose object is gone is \<open>DanglingReference\<close>.
\<close>

datatype error = NotInitialized | DimensionMismatch | NullPointer | DanglingReference

text \<open>
  The destination of an assignment (\<open>Derived\<close>) is a container: its shape and a buffer
  of coefficients addressed by (row, column).  The source (\<open>OtherDerived\<close>) is a lazy
  expression: its shape, its \<open>CoeffReadCost\<close> and the function \<open>coeff\<close> that computes a
  coefficient when it is asked for.  The only memory that changes during an assignment
  is the destination's buffer, so \<open>coeff\<close> takes the current contents of that buffer:
  a source that does not depend on it does not alias the destination.
\<close>

type_synonym 'a buffer = "int \<times> int \<Rightarrow> 'a"

record 'a container = shape +
  coeffs :: "'a buffer"

record 'a expression = shape +
  CoeffReadCost :: int
  coeff :: "'a buffer \<Rightarrow> int \<times> int \<Rightarrow> 'a"

text \<open>
  Modelled from the spec: the accessors \<open>coeff(int index)\<close> and \<open>coeffRef(int index)\<close> are
  declared in MatrixBase.h and defined outside the files at hand.  The specification
  allows linear indexing on vectors (\<open>isVector()\<close>) only; the \<open>index\<close>-th coefficient of
  a vector with one row is in column \<open>index\<close>, that of any other vector in row \<open>index\<close>.
\<close>

definition index_position :: "'z shape_scheme \<Rightarrow> int \<Rightarrow> int \<times> int" where
  "index_position e k = (if rows e = 1 then (0, k) else (k, 0))"

text \<open>The statement \<open>dst.coeffRef(row, col) = src.coeff(row, col)\<close>.\<close>

definition copy_coeff :: "'a container \<Rightarrow> 'a expression \<Rightarrow> int \<times> int \<Rightarrow> 'a container" where
  "copy_coeff dst src rc = dst\<lparr>coeffs := (coeffs dst)(rc := coeff src (coeffs dst) rc)\<rparr>"

text \<open>The statement \<open>dst.coeffRef(index) = src.coeff(index)\<close>.\<close>

definition copy_index :: "'a container \<Rightarrow> 'a expression \<Rightarrow> int \<Rightarrow> 'a container" where
  "copy_index dst src k =
     dst\<lparr>coeffs := (coeffs dst)(index_position dst k :=
            coeff src (coeffs dst) (index_position src k))\<rparr>"

text \<open>
  \<open>ei_matrix_operator_equals_unroller<Derived1, Derived2, UnrollCount>::run\<close>.  The
  template recursion is a recursion on the integer \<open>UnrollCount\<close>; the specialisations
  for 1, 0 and \<open>Dynamic\<close> are tested in the order of the source.  The enumerators
  \<open>col\<close> and \<open>row\<close> of the general template use C++ integer division and remainder
  (\<open>sdiv\<close>, \<open>smod\<close>) by \<open>Derived1::RowsAtCompileTime\<close>; when that is 0 they divide by
  zero in a constant expression and the instantiation is ill-formed.  An
  instantiation that is ill-formed, or that never reaches a specialisation, has no
  result (\<open>None\<close>).
\<close>

partial_function (option) ei_matrix_operator_equals_unroller ::
  "int \<Rightarrow> int \<Rightarrow> 'a expression \<Rightarrow> 'a container \<Rightarrow> 'a container option" where
  "ei_matrix_operator_equals_unroller Dynamic UnrollCount src dst =
     (if UnrollCount = 1 then Some (copy_coeff dst src (0, 0))
      else if UnrollCount = 0 then Some dst
      else if UnrollCount = Dynamic then Some dst
      else if RowsAtCompileTime dst = 0 then None
      else Option.bind (ei_matrix_operator_equals_unroller Dynamic (UnrollCount - 1) src dst)
        (\<lambda>d. let col = (UnrollCount - 1) sdiv RowsAtCompileTime dst;
                 row = (UnrollCount - 1) smod RowsAtCompileTime dst
             in Some (copy_coeff d src (row, col))))"

text \<open>
  \<open>ei_vector_operator_equals_unroller<Derived1, Derived2, UnrollCount>::run\<close>, with its
  specialisations for 0, 1 and \<open>Dynamic\<close>.
\<close>

partial_function (option) ei_vector_operator_equals_unroller ::
  "int \<Rightarrow> int \<Rightarrow> 'a expression \<Rightarrow> 'a container \<Rightarrow> 'a container option" where
  "ei_vector_operator_equals_unroller Dynamic UnrollCount src dst =
     (if UnrollCount = 0 then Some dst
      else if UnrollCount = 1 then Some (copy_index dst src 0)
      else if UnrollCount = Dynamic then Some dst
      else Option.bind (ei_vector_operator_equals_unroller Dynamic (UnrollCount - 1) src dst)
        (\<lambda>d. let index = UnrollCount - 1 in Some (copy_index d src index)))"

text \<open>The loop \<open>for(int i = 0; i < size(); i++) coeffRef(i) = other.coeff(i);\<close>\<close>

function loop_vector :: "'a expression \<Rightarrow> int \<Rightarrow> 'a container \<Rightarrow> 'a container" where
  "loop_vector other i dst =
     (if i < size_e dst then loop_vector other (i + 1) (copy_index dst other i) else dst)"
  by pat_completeness auto
termination
  by (relation "measure (\<lambda>(other, i, dst). nat (size_e dst - i))")
     (auto simp: copy_index_def size_e_def)

declare loop_vector.simps [simp del]

text \<open>
  The column-major traversal: \<open>for(int j = 0; j < cols(); j++) for(int i = 0; i < rows();
  i++) coeffRef(i, j) = other.coeff(i, j);\<close>
\<close>

function loop_colmajor_rows :: "'a expression \<Rightarrow> int \<Rightarrow> int \<Rightarrow> 'a container \<Rightarrow> 'a container" where
  "loop_colmajor_rows other j i dst =
     (if i < rows dst then loop_colmajor_rows other j (i + 1) (copy_coeff dst other (i, j))
      else dst)"
  by pat_completeness auto
termination
  by (relation "measure (\<lambda>(other, j, i, dst). nat (rows dst - i))")
     (auto simp: copy_coeff_def)

declare loop_colmajor_rows.simps [simp del]

lemma shape_loop_colmajor_rows:
  "rows (loop_colmajor_rows other j i dst) = rows dst \<and>
   cols (loop_colmajor_rows other j i dst) = cols dst \<and>
   RowsAtCompileTime (loop_colmajor_rows other j i dst) = RowsAtCompileTime dst \<and>
   ColsAtCompileTime (loop_colmajor_rows other j i dst) = ColsAtCompileTime dst"
proof (induction other j i dst rule: loop_colmajor_rows.induct)
  case (1 other j i dst)
  then show ?case
    by (simp add: loop_colmajor_rows.simps [of other j i dst] copy_coeff_def)
qed

function loop_colmajor :: "'a expression \<Rightarrow> int \<Rightarrow> 'a container \<Rightarrow> 'a container" where
  "loop_colmajor other j dst =
     (if j < cols dst then loop_colmajor other (j + 1) (loop_colmajor_rows other j 0 dst)
      else dst)"
  by pat_completeness auto
termination
  by (relation "measure (\<lambda>(other, j, dst). nat (cols dst - j))")
     (auto simp: shape_loop_colmajor_rows)

declare loop_colmajor.simps [simp del]

text \<open>
  The row-major traversal: \<open>for(int i = 0; i < rows(); i++) for(int j = 0; j < cols();
  j++) coeffRef(i, j) = other.coeff(i, j);\<close>
\<close>

function loop_rowmajor_cols :: "'a expression \<Rightarrow> int \<Rightarrow> int \<Rightarrow> 'a container \<Rightarrow> 'a container" where
  "loop_rowmajor_cols other i j dst =
     (if j < cols dst then loop_rowmajor_cols other i (j + 1) (copy_coeff dst other (i, j))
      else dst)"
  by pat_completeness auto
termination
  by (relation "measure (\<lambda>(other, i, j, dst). nat (cols dst - j))")
     (auto simp: copy_coeff_def)

declare loop_rowmajor_cols.simps [simp del]

lemma shape_loop_rowmajor_cols:
  "rows (loop_rowmajor_cols other i j dst) = rows dst \<and>
   cols (loop_rowmajor_cols other i j dst) = cols dst \<and>
   RowsAtCompileTime (loop_rowmajor_cols other i j dst) = RowsAtCompileTime dst \<and>
   ColsAtCompileTime (loop_rowmajor_cols other i j dst) = ColsAtCompileTime dst"
proof (induction other i j dst rule: loop_rowmajor_cols.induct)
  case (1 other i j dst)
  then show ?case
    by (simp add: loop_rowmajor_cols.simps [of other i j dst] copy_coeff_def)
qed

function loop_rowmajor :: "'a expression \<Rightarrow> int \<Rightarrow> 'a container \<Rightarrow> 'a container" where
  "loop_rowmajor other i dst =
     (if i < rows dst then loop_rowmajor other (i + 1) (loop_rowmajor_cols other i 0 dst)
      else dst)"
  by pat_completeness auto
termination
  by (relation "measure (\<lambda>(other, i, dst). nat (rows dst - i))")
     (auto simp: shape_loop_rowmajor_cols)

declare loop_rowmajor.simps [simp del]

text \<open>
  The flag \<open>unroll\<close> of \<open>lazyAssign\<close>.  The macro \<open>EIGEN_UNROLLING_LIMIT\<close> is defined
  outside the files at hand and is a parameter, like \<open>Dynamic\<close>.  The product on the
  left is a constant expression too.
\<close>

definition unroll :: "int \<Rightarrow> int \<Rightarrow> 'a container \<Rightarrow> 'a expression \<Rightarrow> bool" where
  "unroll Dynamic EIGEN_UNROLLING_LIMIT dst other =
     (SizeAtCompileTime Dynamic dst * CoeffReadCost other \<le> EIGEN_UNROLLING_LIMIT)"

text \<open>
  \<open>MatrixBase<Derived>::lazyAssign(other)\<close>; the destination \<open>*this\<close> is the argument
  \<open>dst\<close>, and the reference \<open>derived()\<close> that the function returns is the updated
  destination.
\<close>

definition lazyAssign ::
  "int \<Rightarrow> int \<Rightarrow> 'a container \<Rightarrow> 'a expression \<Rightarrow> (error + 'a container) option" where
  "lazyAssign Dynamic EIGEN_UNROLLING_LIMIT dst other =
     (if IsVectorAtCompileTime dst \<and> IsVectorAtCompileTime other then
        if size_e dst \<noteq> size_e other then Some (Inl DimensionMismatch)
        else if unroll Dynamic EIGEN_UNROLLING_LIMIT dst other then
          map_option Inr
            (ei_vector_operator_equals_unroller Dynamic
               (if unroll Dynamic EIGEN_UNROLLING_LIMIT dst other
                then SizeAtCompileTime Dynamic dst else Dynamic) other dst)
        else Some (Inr (loop_vector other 0 dst))
      else
        if \<not> (rows dst = rows other \<and> cols dst = cols other)
        then Some (Inl DimensionMismatch)
        else if unroll Dynamic EIGEN_UNROLLING_LIMIT dst other then
          map_option Inr
            (ei_matrix_operator_equals_unroller Dynamic
               (if unroll Dynamic EIGEN_UNROLLING_LIMIT dst other
                then SizeAtCompileTime Dynamic dst else Dynamic) other dst)
        else if ColsAtCompileTime dst = Dynamic \<or> RowsAtCompileTime dst \<noteq> Dynamic then
          Some (Inr (loop_colmajor other 0 dst))
        else
          Some (Inr (loop_rowmajor other 0 dst)))"

text \<open>
  The contract of the assignment in the words of the specification: every coefficient
  of the source is copied into the destination and nothing else changes.  A position
  is \<open>inside\<close> a shape when it is a valid (row, column) pair; \<open>assigned dst f\<close> is the
  destination whose coefficients inside its extents are those given by \<open>f\<close>.  The
  function \<open>index_of\<close> is the inverse of \<open>index_position\<close>.
\<close>

definition inside :: "'z shape_scheme \<Rightarrow> int \<times> int \<Rightarrow> bool" where
  "inside e p = (0 \<le> fst p \<and> fst p < rows e \<and> 0 \<le> snd p \<and> snd p < cols e)"

definition assigned :: "'a container \<Rightarrow> (int \<times> int \<Rightarrow> 'a) \<Rightarrow> 'a container" where
  "assigned dst f = dst\<lparr>coeffs := (\<lambda>p. if inside dst p then f p else coeffs dst p)\<rparr>"

definition index_of :: "'z shape_scheme \<Rightarrow> int \<times> int \<Rightarrow> int" where
  "index_of e p = (if rows e = 1 then snd p else fst p)"

section \<open>The conjugate gradient solver (ConjugateGradient.h)\<close>

text \<open>
  The solver is a template over the matrix type, the vector types of the right-hand
  side and of the destination, the scalar type with its real type, and the
  preconditioner.  None of these is defined in the files at hand; the operations the
  solver calls on them are the fields of the record \<open>capabilities\<close>, a parameter of
  every definition below: the matrix (\<open>rows()\<close>, \<open>cols()\<close>, \<open>selfadjointView<UpLo>()\<close>,
  the product with a vector), the vectors (\<open>rows()\<close>, \<open>setZero()\<close>, sum, difference,
  product with a scalar, \<open>dot\<close>), the scalars (\<open>internal::real\<close>, the conversion of a
  real to a scalar, the division of scalars), the real scalars (product, quotient,
  the comparisons \<open>>\<close> and \<open><=\<close>, \<open>sqrt\<close>, \<open>abs\<close>, \<open>NumTraits<Scalar>::epsilon()\<close>), and
  the preconditioner (default construction, \<open>compute\<close>, \<open>solve\<close>).  No property of
  arithmetic is assumed, so what is proved holds for floating-point scalars as well.
  A vector variable holds a value; assigning a vector expression to it replaces the
  value.
\<close>

datatype ComputationInfo = Success | NoConvergence

record ('m, 'v, 's, 'r, 'p) capabilities =
  mat_rows :: "'m \<Rightarrow> int"
  mat_cols :: "'m \<Rightarrow> int"
  selfadjointView :: "'m \<Rightarrow> 'm"
  mat_vec :: "'m \<Rightarrow> 'v \<Rightarrow> 'v"
  vec_rows :: "'v \<Rightarrow> int"
  vec_setZero :: "'v \<Rightarrow> 'v"
  vec_add :: "'v \<Rightarrow> 'v \<Rightarrow> 'v"
  vec_sub :: "'v \<Rightarrow> 'v \<Rightarrow> 'v"
  vec_scale :: "'s \<Rightarrow> 'v \<Rightarrow> 'v"
  vec_dot :: "'v \<Rightarrow> 'v \<Rightarrow> 's"
  sc_real :: "'s \<Rightarrow> 'r"
  sc_of_real :: "'r \<Rightarrow> 's"
  sc_div :: "'s \<Rightarrow> 's \<Rightarrow> 's"
  re_mul :: "'r \<Rightarrow> 'r \<Rightarrow> 'r"
  re_div :: "'r \<Rightarrow> 'r \<Rightarrow> 'r"
  re_greater :: "'r \<Rightarrow> 'r \<Rightarrow> bool"
  re_le :: "'r \<Rightarrow> 'r \<Rightarrow> bool"
  re_sqrt :: "'r \<Rightarrow> 'r"
  re_abs :: "'r \<Rightarrow> 'r"
  re_epsilon :: "'r"
  pc_default :: "'p"
  pc_compute :: "'p \<Rightarrow> 'm \<Rightarrow> 'p"
  pc_solve :: "'p \<Rightarrow> 'v \<Rightarrow> 'v"

text \<open>
  The local variables of \<open>internal::conjugate_gradient\<close> that live across iterations
  of its loop: \<open>x\<close>, \<open>residual\<close>, \<open>p\<close>, \<open>absNew\<close> and the counter \<open>i\<close>.  The counter is a
  C++ \<open>int\<close> that only grows from 0 to at most \<open>maxIters\<close>, so it never overflows.
\<close>

record ('v, 'r) locals =
  l_x :: "'v"
  l_residual :: "'v"
  l_p :: "'v"
  l_absNew :: "'r"
  l_i :: int

text \<open>
  The condition of the loop, \<open>(i < maxIters) && (absNew > tol*tol*absInit)\<close>, and its
  body.
\<close>

definition loop_condition ::
  "('m, 'v, 's, 'r, 'p) capabilities \<Rightarrow> int \<Rightarrow> 'r \<Rightarrow> 'r \<Rightarrow> ('v, 'r) locals \<Rightarrow> bool" where
  "loop_condition ops maxIters tol absInit st =
     (l_i st < maxIters \<and>
      re_greater ops (l_absNew st) (re_mul ops (re_mul ops tol tol) absInit))"

definition loop_body ::
  "('m, 'v, 's, 'r, 'p) capabilities \<Rightarrow> 'm \<Rightarrow> 'p \<Rightarrow> ('v, 'r) locals \<Rightarrow> ('v, 'r) locals" where
  "loop_body ops mat precond st =
     (let tmp = mat_vec ops mat (l_p st);
          alpha = sc_div ops (sc_of_real ops (l_absNew st)) (vec_dot ops (l_p st) tmp);
          x = vec_add ops (l_x st) (vec_scale ops alpha (l_p st));
          residual = vec_sub ops (l_residual st) (vec_scale ops alpha tmp);
          z = pc_solve ops precond residual;
          absOld = l_absNew st;
          absNew = sc_real ops (vec_dot ops residual z);
          beta = re_div ops absNew absOld;
          p = vec_add ops z (vec_scale ops (sc_of_real ops beta) (l_p st))
      in \<lparr>l_x = x, l_residual = residual, l_p = p, l_absNew = absNew, l_i = l_i st + 1\<rparr>)"

lemma l_i_loop_body [simp]: "l_i (loop_body ops mat precond st) = l_i st + 1"
  by (simp add: loop_body_def Let_def)

function cg_while ::
  "('m, 'v, 's, 'r, 'p) capabilities \<Rightarrow> 'm \<Rightarrow> 'p \<Rightarrow> int \<Rightarrow> 'r \<Rightarrow> 'r \<Rightarrow>
   ('v, 'r) locals \<Rightarrow> ('v, 'r) locals" where
  "cg_while ops mat precond maxIters tol absInit st =
     (if loop_condition ops maxIters tol absInit st
      then cg_while ops mat precond maxIters tol absInit (loop_body ops mat precond st)
      else st)"
  by pat_completeness auto

termination
  by (relation "measure (\<lambda>(ops, mat, precond, maxIters, tol, absInit, st). nat (maxIters - l_i st))")
     (auto simp: loop_condition_def)

declare cg_while.simps [simp del]

text \<open>
  The statements before the loop (the initial residual, the initial search direction
  and the initial value of \<open>absNew\<close>), and the whole of
  \<open>internal::conjugate_gradient\<close>.  The reference parameters \<open>x\<close>, \<open>iters\<close> and
  \<open>tol_error\<close> are read on entry and written on exit: the result is the triple of
  their final values.  The vectors \<open>p\<close>, \<open>z\<close> and \<open>tmp\<close> are created with \<open>mat.cols()\<close>
  coefficients and assigned as a whole before they are read, so only the assigned
  values appear.
\<close>

definition initial_locals ::
  "('m, 'v, 's, 'r, 'p) capabilities \<Rightarrow> 'm \<Rightarrow> 'v \<Rightarrow> 'v \<Rightarrow> 'p \<Rightarrow> ('v, 'r) locals" where
  "initial_locals ops mat rhs x precond =
     (let residual = vec_sub ops rhs (mat_vec ops mat x);
          p = pc_solve ops precond residual;
          absNew = sc_real ops (vec_dot ops residual p)
      in \<lparr>l_x = x, l_residual = residual, l_p = p, l_absNew = absNew, l_i = 0\<rparr>)"

definition conjugate_gradient ::
  "('m, 'v, 's, 'r, 'p) capabilities \<Rightarrow> 'm \<Rightarrow> 'v \<Rightarrow> 'v \<Rightarrow> 'p \<Rightarrow> int \<Rightarrow> 'r \<Rightarrow>
   'v \<times> int \<times> 'r" where
  "conjugate_gradient ops mat rhs x precond iters tol_error =
     (let tol = tol_error;
          maxIters = iters;
          start = initial_locals ops mat rhs x precond;
          absInit = l_absNew start;
          st = cg_while ops mat precond maxIters tol absInit start
      in (l_x st, l_i st, re_sqrt ops (re_abs ops (re_div ops (l_absNew st) absInit))))"

text \<open>
  The class \<open>ConjugateGradient\<close>.  The pointer \<open>mp_matrix\<close> is \<open>None\<close> when null.  The
  constructors leave \<open>m_error\<close>, \<open>m_iterations\<close> and \<open>m_info\<close> unset: they take the
  object as the memory holds it (\<open>uninitialised\<close>) and set the members the source sets.
\<close>

record ('m, 'r, 'p) ConjugateGradient =
  mp_matrix :: "'m option"
  m_preconditioner :: "'p"
  m_maxIterations :: int
  m_tolerance :: "'r"
  m_error :: "'r"
  m_iterations :: int
  m_info :: ComputationInfo
  m_isInitialized :: bool

definition init ::
  "('m, 'v, 's, 'r, 'p) capabilities \<Rightarrow> ('m, 'r, 'p) ConjugateGradient \<Rightarrow>
   ('m, 'r, 'p) ConjugateGradient" where
  "init ops this =
     this\<lparr>m_isInitialized := False, m_maxIterations := 1000, m_tolerance := re_epsilon ops\<rparr>"

definition compute ::
  "('m, 'v, 's, 'r, 'p) capabilities \<Rightarrow> ('m, 'r, 'p) ConjugateGradient \<Rightarrow> 'm \<Rightarrow>
   ('m, 'r, 'p) ConjugateGradient" where
  "compute ops this A =
     this\<lparr>mp_matrix := Some A,
          m_preconditioner := pc_compute ops (m_preconditioner this) A,
          m_isInitialized := True\<rparr>"

definition ConjugateGradient_default ::
  "('m, 'v, 's, 'r, 'p) capabilities \<Rightarrow> ('m, 'r, 'p) ConjugateGradient \<Rightarrow>
   ('m, 'r, 'p) ConjugateGradient" where
  "ConjugateGradient_default ops uninitialised =
     init ops (uninitialised\<lparr>mp_matrix := None, m_preconditioner := pc_default ops\<rparr>)"

definition ConjugateGradient_from ::
  "('m, 'v, 's, 'r, 'p) capabilities \<Rightarrow> ('m, 'r, 'p) ConjugateGradient \<Rightarrow> 'm \<Rightarrow>
   ('m, 'r, 'p) ConjugateGradient" where
  "ConjugateGradient_from ops uninitialised A =
     compute ops (init ops (uninitialised\<lparr>m_preconditioner := pc_default ops\<rparr>)) A"

definition tolerance :: "('m, 'r, 'p) ConjugateGradient \<Rightarrow> 'r" where
  "tolerance this = m_tolerance this"

definition setTolerance ::
  "('m, 'r, 'p) ConjugateGradient \<Rightarrow> 'r \<Rightarrow> ('m, 'r, 'p) ConjugateGradient" where
  "setTolerance this tol = this\<lparr>m_tolerance := tol\<rparr>"

definition maxIterations :: "('m, 'r, 'p) ConjugateGradient \<Rightarrow> int" where
  "maxIterations this = m_maxIterations this"

definition setMaxIterations ::
  "('m, 'r, 'p) ConjugateGradient \<Rightarrow> int \<Rightarrow> ('m, 'r, 'p) ConjugateGradient" where
  "setMaxIterations this maxIters = this\<lparr>m_maxIterations := maxIters\<rparr>"

text \<open>
  The accessors guarded by \<open>eigen_assert(m_isInitialized && ...)\<close>.
\<close>

definition iterations :: "('m, 'r, 'p) ConjugateGradient \<Rightarrow> error + int" where
  "iterations this = (if m_isInitialized this then Inr (m_iterations this) else Inl NotInitialized)"

definition error :: "('m, 'r, 'p) ConjugateGradient \<Rightarrow> error + 'r" where
  "error this = (if m_isInitialized this then Inr (m_error this) else Inl NotInitialized)"

definition info :: "('m, 'r, 'p) ConjugateGradient \<Rightarrow> error + ComputationInfo" where
  "info this = (if m_isInitialized this then Inr (m_info this) else Inl NotInitialized)"

text \<open>
  \<open>ConjugateGradient::_solve(b, x)\<close>, which works on \<open>x\<close> in place and writes the
  mutable members of the solver: the result is the solver after the call together
  with the final \<open>x\<close>.
\<close>

definition solve_internal ::
  "('m, 'v, 's, 'r, 'p) capabilities \<Rightarrow> ('m, 'r, 'p) ConjugateGradient \<Rightarrow> 'v \<Rightarrow> 'v \<Rightarrow>
   error + ('m, 'r, 'p) ConjugateGradient \<times> 'v" where
  "solve_internal ops this b x =
     (case mp_matrix this of
        None \<Rightarrow> Inl NullPointer
      | Some A \<Rightarrow>
          (case conjugate_gradient ops (selfadjointView ops A) b x (m_preconditioner this)
                  (m_maxIterations this) (m_tolerance this) of
             (x', iters, err) \<Rightarrow>
               Inr (this\<lparr>m_iterations := iters, m_error := err, m_isInitialized := True,
                         m_info := (if re_le ops err (m_tolerance this) then Success
                                    else NoConvergence)\<rparr>, x')))"

text \<open>
  Modelled from the spec: the base class \<open>solve_retval_base\<close> of the object that
  \<open>solve(b)\<close> returns is outside the files at hand.  By the specification the object
  captures the solver and the right-hand side: the record \<open>solve_retval\<close> holds both
  as they are when \<open>solve\<close> is called (the solver and \<open>b\<close> are taken not to change
  before \<open>evalTo\<close> runs).  \<open>solve\<close> and \<open>evalTo\<close> themselves follow the source.
\<close>

record ('m, 'v, 'r, 'p) solve_retval =
  m_dec :: "('m, 'r, 'p) ConjugateGradient"
  m_rhs :: "'v"

definition solve ::
  "('m, 'v, 's, 'r, 'p) capabilities \<Rightarrow> ('m, 'r, 'p) ConjugateGradient \<Rightarrow> 'v \<Rightarrow>
   error + ('m, 'v, 'r, 'p) solve_retval" where
  "solve ops this b =
     (if \<not> m_isInitialized this then Inl NotInitialized
      else case mp_matrix this of
        None \<Rightarrow> Inl NullPointer
      | Some A \<Rightarrow>
          if \<not> (mat_rows ops A = vec_rows ops b) then Inl DimensionMismatch
          else Inr \<lparr>m_dec = this, m_rhs = b\<rparr>)"

definition evalTo ::
  "('m, 'v, 's, 'r, 'p) capabilities \<Rightarrow> ('m, 'v, 'r, 'p) solve_retval \<Rightarrow> 'v \<Rightarrow>
   error + ('m, 'r, 'p) ConjugateGradient \<times> 'v" where
  "evalTo ops this dst = solve_internal ops (m_dec this) (m_rhs this) (vec_setZero ops dst)"

text \<open>
  \<open>solveWithGuess(b, x0)\<close> and \<open>conjugate_gradient_solve_retval_with_guess\<close>.  The member
  \<open>m_guess\<close> is a reference (\<open>const Guess&\<close>), and the constructor binds it to its own
  parameter \<open>guess\<close>, which it receives by value (\<open>const Guess guess\<close>).  To follow what
  the reference refers to, the vector objects alive at an address are a map
  \<open>objects\<close>, and \<open>m_guess\<close> is an address: the constructor creates its parameter at the
  address \<open>a\<close> as a copy of the argument, binds \<open>m_guess\<close> to it, and the parameter
  ends its life when the constructor returns.  \<open>evalTo\<close> reads through the reference
  in \<open>dst = m_guess\<close>.
\<close>

type_synonym 'v objects = "nat \<Rightarrow> 'v option"

record ('m, 'v, 'r, 'p) conjugate_gradient_solve_retval_with_guess =
  "('m, 'v, 'r, 'p) solve_retval" +
  m_guess :: nat

definition retval_with_guess_ctor ::
  "'v objects \<Rightarrow> nat \<Rightarrow> ('m, 'r, 'p) ConjugateGradient \<Rightarrow> 'v \<Rightarrow> 'v \<Rightarrow>
   ('m, 'v, 'r, 'p) conjugate_gradient_solve_retval_with_guess \<times> 'v objects" where
  "retval_with_guess_ctor objs a cg b x0 =
     (let objs1 = objs(a \<mapsto> x0);
          this = \<lparr>m_dec = cg, m_rhs = b, m_guess = a\<rparr>;
          objs2 = objs1(a := None)
      in (this, objs2))"

definition solveWithGuess ::
  "('m, 'v, 's, 'r, 'p) capabilities \<Rightarrow> 'v objects \<Rightarrow> nat \<Rightarrow>
   ('m, 'r, 'p) ConjugateGradient \<Rightarrow> 'v \<Rightarrow> 'v \<Rightarrow>
   error + ('m, 'v, 'r, 'p) conjugate_gradient_solve_retval_with_guess \<times> 'v objects" where
  "solveWithGuess ops objs a this b x0 =
     (if \<not> m_isInitialized this then Inl NotInitialized
      else case mp_matrix this of
        None \<Rightarrow> Inl NullPointer
      | Some A \<Rightarrow>
          if \<not> (mat_rows ops A = vec_rows ops b) then Inl DimensionMismatch
          else Inr (retval_with_guess_ctor objs a this b x0))"

definition evalTo_with_guess ::
  "('m, 'v, 's, 'r, 'p) capabilities \<Rightarrow> 'v objects \<Rightarrow>
   ('m, 'v, 'r, 'p) conjugate_gradient_solve_retval_with_guess \<Rightarrow> 'v \<Rightarrow>
   error + ('m, 'r, 'p) ConjugateGradient \<times> 'v" where
  "evalTo_with_guess ops objs this dst =
     (case objs (m_guess this) of
        None \<Rightarrow> Inl DanglingReference
      | Some guess \<Rightarrow> solve_internal ops (m_dec this) (m_rhs this) guess)"

text \<open>
  The statements \<open>dst = cg.solve(b);\<close> and \<open>dst = cg.solveWithGuess(b, x0);\<close>: the returned
  object is evaluated into the destination as soon as it is assigned.
\<close>

definition materialize ::
  "('m, 'v, 's, 'r, 'p) capabilities \<Rightarrow> ('m, 'r, 'p) ConjugateGradient \<Rightarrow> 'v \<Rightarrow> 'v \<Rightarrow>
   error + ('m, 'r, 'p) ConjugateGradient \<times> 'v" where
  "materialize ops cg b dst =
     (case solve ops cg b of Inl e \<Rightarrow> Inl e | Inr retval \<Rightarrow> evalTo ops retval dst)"

definition materialize_with_guess ::
  "('m, 'v, 's, 'r, 'p) capabilities \<Rightarrow> 'v objects \<Rightarrow> nat \<Rightarrow>
   ('m, 'r, 'p) ConjugateGradient \<Rightarrow> 'v \<Rightarrow> 'v \<Rightarrow> 'v \<Rightarrow>
   error + ('m, 'r, 'p) ConjugateGradient \<times> 'v" where
  "materialize_with_guess ops objs a cg b x0 dst =
     (case solveWithGuess ops objs a cg b x0 of
        Inl e \<Rightarrow> Inl e
      | Inr (retval, objs') \<Rightarrow> evalTo_with_guess ops objs' retval dst)"

text \<open>
  The local variables after \<open>j\<close> iterations of the loop.
\<close>

definition locals_after ::
  "('m, 'v, 's, 'r, 'p) capabilities \<Rightarrow> 'm \<Rightarrow> 'v \<Rightarrow> 'v \<Rightarrow> 'p \<Rightarrow> nat \<Rightarrow> ('v, 'r) locals" where
  "locals_after ops mat rhs x precond j =
     (loop_body ops mat precond ^^ j) (initial_locals ops mat rhs x precond)"

section \<open>Concrete operands\<close>

text \<open>
  A concrete choice of the solver's template parameters, used to run the definitions
  on inputs: dense vectors and matrices (lists and lists of rows), the identity
  preconditioner, and real scalars with the special values of IEEE 754 arithmetic:
  a finite value, an infinity with its sign (\<open>True\<close> for the negative one) or
  not-a-number.  A division of zero by zero and the other invalid operations give
  not-a-number, and every comparison with not-a-number is false.  Finite results are
  exact: rounding, overflow and the sign of zero are left out, so the operations agree
  with the machine's on inputs whose results are representable.
\<close>

datatype ieee = Finite real | Infinity bool | NaN

fun ieee_neg :: "ieee \<Rightarrow> ieee" where
  "ieee_neg (Finite a) = Finite (- a)"
| "ieee_neg (Infinity negative) = Infinity (\<not> negative)"
| "ieee_neg NaN = NaN"

fun ieee_add :: "ieee \<Rightarrow> ieee \<Rightarrow> ieee" where
  "ieee_add (Finite a) (Finite b) = Finite (a + b)"
| "ieee_add (Finite a) (Infinity t) = Infinity t"
| "ieee_add (Infinity s) (Finite b) = Infinity s"
| "ieee_add (Infinity s) (Infinity t) = (if s = t then Infinity s else NaN)"
| "ieee_add NaN b = NaN"
| "ieee_add a NaN = NaN"

definition ieee_sub :: "ieee \<Rightarrow> ieee \<Rightarrow> ieee" where
  "ieee_sub a b = ieee_add a (ieee_neg b)"

fun ieee_mul :: "ieee \<Rightarrow> ieee \<Rightarrow> ieee" where
  "ieee_mul (Finite a) (Finite b) = Finite (a * b)"
| "ieee_mul (Finite a) (Infinity t) = (if a = 0 then NaN else Infinity (t \<noteq> (a < 0)))"
| "ieee_mul (Infinity s) (Finite b) = (if b = 0 then NaN else Infinity (s \<noteq> (b < 0)))"
| "ieee_mul (Infinity s) (Infinity t) = Infinity (s \<noteq> t)"
| "ieee_mul NaN b = NaN"
| "ieee_mul a NaN = NaN"

fun ieee_div :: "ieee \<Rightarrow> ieee \<Rightarrow> ieee" where
  "ieee_div (Finite a) (Finite b) =
     (if b = 0 then (if a = 0 then NaN else Infinity (a < 0)) else Finite (a / b))"
| "ieee_div (Finite a) (Infinity t) = Finite 0"
| "ieee_div (Infinity s) (Finite b) = Infinity (s \<noteq> (b < 0))"
| "ieee_div (Infinity s) (Infinity t) = NaN"
| "ieee_div NaN b = NaN"
| "ieee_div a NaN = NaN"

fun ieee_less :: "ieee \<Rightarrow> ieee \<Rightarrow> bool" where
  "ieee_less (Finite a) (Finite b) = (a < b)"
| "ieee_less (Finite a) (Infinity t) = (\<not> t)"
| "ieee_less (Infinity s) (Finite b) = s"
| "ieee_less (Infinity s) (Infinity t) = (s \<and> \<not> t)"
| "ieee_less NaN b = False"
| "ieee_less a NaN = False"

fun ieee_le :: "ieee \<Rightarrow> ieee \<Rightarrow> bool" where
  "ieee_le (Finite a) (Finite b) = (a \<le> b)"
| "ieee_le (Finite a) (Infinity t) = (\<not> t)"
| "ieee_le (Infinity s) (Finite b) = s"
| "ieee_le (Infinity s) (Infinity t) = (s \<or> \<not> t)"
| "ieee_le NaN b = False"
| "ieee_le a NaN = False"

fun ieee_abs :: "ieee \<Rightarrow> ieee" where
  "ieee_abs (Finite a) = Finite \<bar>a\<bar>"
| "ieee_abs (Infinity s) = Infinity False"
| "ieee_abs NaN = NaN"

fun ieee_sqrt :: "ieee \<Rightarrow> ieee" where
  "ieee_sqrt (Finite a) = (if a < 0 then NaN else Finite (sqrt a))"
| "ieee_sqrt (Infinity s) = (if s then NaN else Infinity False)"
| "ieee_sqrt NaN = NaN"

definition dense_dot :: "ieee list \<Rightarrow> ieee list \<Rightarrow> ieee" where
  "dense_dot a b = foldl ieee_add (Finite 0) (map2 ieee_mul a b)"

definition dense :: "(ieee list list, ieee list, ieee, ieee, unit) capabilities" where
  "dense =
     \<lparr>mat_rows = (\<lambda>A. int (length A)),
      mat_cols = (\<lambda>A. case A of [] \<Rightarrow> 0 | row # _ \<Rightarrow> int (length row)),
      selfadjointView = (\<lambda>A. A),
      mat_vec = (\<lambda>A v. map (\<lambda>row. dense_dot row v) A),
      vec_rows = (\<lambda>v. int (length v)),
      vec_setZero = map (\<lambda>c. Finite 0),
      vec_add = map2 ieee_add,
      vec_sub = map2 ieee_sub,
      vec_scale = (\<lambda>s. map (ieee_mul s)),
      vec_dot = dense_dot,
      sc_real = (\<lambda>s. s),
      sc_of_real = (\<lambda>r. r),
      sc_div = ieee_div,
      re_mul = ieee_mul,
      re_div = ieee_div,
      re_greater = (\<lambda>a b. ieee_less b a),
      re_le = ieee_le,
      re_sqrt = ieee_sqrt,
      re_abs = ieee_abs,
      re_epsilon = Finite (1 / 2 ^ 52),
      pc_default = (),
      pc_compute = (\<lambda>p A. ()),
      pc_solve = (\<lambda>p r. r)\<rparr>"

text \<open>
  The memory of a solver object before its constructor has run, and the solver for
  the system with the 1x1 matrix (1) after the default constructor and \<open>compute\<close>.
\<close>

definition raw_solver :: "(ieee list list, ieee, unit) ConjugateGradient" where
  "raw_solver =
     \<lparr>mp_matrix = Some [[Finite 7]], m_preconditioner = (), m_maxIterations = 3,
      m_tolerance = Finite 5, m_error = Finite 42, m_iterations = 17, m_info = Success,
      m_isInitialized = True\<rparr>"

definition unit_system :: "(ieee list list, ieee, unit) ConjugateGradient" where
  "unit_system = compute dense (ConjugateGradient_default dense raw_solver) [[Finite 1]]"













section \<open>Properties of the shape traits\<close>

text \<open>
  Claim C9.  For every expression, \<open>size()\<close> is the \<open>int\<close> product \<open>rows() * cols()\<close>, which
  is the mathematical product whenever that is representable, and \<open>isVector()\<close> is
  \<open>rows() == 1 || cols() == 1\<close>; at compile time \<open>SizeAtCompileTime\<close> is the product of
  the two compile-time extents (a representable one, the program being ill-formed
  otherwise) unless one of them is the sentinel \<open>Dynamic\<close>, and then it is the sentinel
  too.
\<close>

lemma cpp_int_representable: "representable n \<Longrightarrow> cpp_int n = n"
  by (simp add: representable_def cpp_int_def)

theorem shape_invariant:
  "size_e e = cpp_int (rows e * cols e) \<and>
   (representable (rows e * cols e) \<longrightarrow> size_e e = rows e * cols e) \<and>
   isVector e = (rows e = 1 \<or> cols e = 1) \<and>
   (RowsAtCompileTime e \<noteq> Dynamic \<and> ColsAtCompileTime e \<noteq> Dynamic \<and>
    representable (RowsAtCompileTime e * ColsAtCompileTime e) \<longrightarrow>
      SizeAtCompileTime Dynamic e = RowsAtCompileTime e * ColsAtCompileTime e) \<and>
   (RowsAtCompileTime e = Dynamic \<or> ColsAtCompileTime e = Dynamic \<longrightarrow>
      SizeAtCompileTime Dynamic e = Dynamic)"
  by (simp add: size_e_def isVector_def SizeAtCompileTime_def cpp_int_representable)

theorem shape_invariant_witness:
  "size_e \<lparr>RowsAtCompileTime = 3, ColsAtCompileTime = 2, rows = 3, cols = 2\<rparr> = 6 \<and>
   \<not> isVector \<lparr>RowsAtCompileTime = 3, ColsAtCompileTime = 2, rows = 3, cols = 2\<rparr> \<and>
   SizeAtCompileTime 10000 \<lparr>RowsAtCompileTime = 3, ColsAtCompileTime = 2, rows = 3, cols = 2\<rparr> = 6 \<and>
   isVector \<lparr>RowsAtCompileTime = 10000, ColsAtCompileTime = 1, rows = 7, cols = 1\<rparr> \<and>
   SizeAtCompileTime 10000 \<lparr>RowsAtCompileTime = 10000, ColsAtCompileTime = 1, rows = 7, cols = 1\<rparr>
     = 10000 \<and>
   size_e \<lparr>RowsAtCompileTime = 10000, ColsAtCompileTime = 10000, rows = 65536, cols = 65536\<rparr>
     = 0"
  using shape_invariant [of "\<lparr>RowsAtCompileTime = 3, ColsAtCompileTime = 2, rows = 3, cols = 2\<rparr>" 10000]
    shape_invariant [of "\<lparr>RowsAtCompileTime = 10000, ColsAtCompileTime = 1, rows = 7, cols = 1\<rparr>" 10000]
    shape_invariant [of "\<lparr>RowsAtCompileTime = 10000, ColsAtCompileTime = 10000, rows = 65536, cols = 65536\<rparr>" 10000]
  by (simp add: representable_def cpp_int_def)

section \<open>Properties of the assignment engine\<close>

subsection \<open>The unrollers return, and perform the copies of the loops\<close>

lemma sdiv_smod_nonneg:
  fixes a b :: int
  assumes "0 \<le> a" "0 < b"
  shows "a sdiv b = a div b" "a smod b = a mod b"
  using assms by (simp_all add: signed_divide_int_def signed_modulo_int_def sgn_if)

lemma shape_copy_index [simp]:
  "rows (copy_index dst src k) = rows dst"
  "cols (copy_index dst src k) = cols dst"
  "RowsAtCompileTime (copy_index dst src k) = RowsAtCompileTime dst"
  "ColsAtCompileTime (copy_index dst src k) = ColsAtCompileTime dst"
  "size_e (copy_index dst src k) = size_e dst"
  by (simp_all add: copy_index_def size_e_def)

lemma shape_copy_coeff [simp]:
  "rows (copy_coeff dst src p) = rows dst"
  "cols (copy_coeff dst src p) = cols dst"
  "RowsAtCompileTime (copy_coeff dst src p) = RowsAtCompileTime dst"
  "ColsAtCompileTime (copy_coeff dst src p) = ColsAtCompileTime dst"
  by (simp_all add: copy_coeff_def)

lemma vector_unroller_terminates:
  assumes "0 \<le> n"
  shows "\<exists>d. ei_vector_operator_equals_unroller D n src dst = Some d"
  using assms
proof (induction n rule: int_ge_induct)
  case base
  show ?case by (simp add: ei_vector_operator_equals_unroller.simps)
next
  case (step i)
  then obtain d where d: "ei_vector_operator_equals_unroller D i src dst = Some d" by blast
  show ?case
    by (subst ei_vector_operator_equals_unroller.simps) (simp add: d)
qed

lemma matrix_unroller_terminates:
  assumes "0 \<le> n" "RowsAtCompileTime dst \<noteq> 0"
  shows "\<exists>d. ei_matrix_operator_equals_unroller D n src dst = Some d"
  using assms
proof (induction n rule: int_ge_induct)
  case base
  show ?case by (simp add: ei_matrix_operator_equals_unroller.simps)
next
  case (step i)
  then obtain d where d: "ei_matrix_operator_equals_unroller D i src dst = Some d" by blast
  show ?case using step.prems
    by (subst ei_matrix_operator_equals_unroller.simps) (simp add: d)
qed

lemma vector_unroller_prefix:
  assumes "0 \<le> n"
  shows "n \<le> size_e dst \<Longrightarrow> D \<le> 1 \<or> n < D \<Longrightarrow>
    \<exists>d. ei_vector_operator_equals_unroller D n src dst = Some d \<and> size_e d = size_e dst \<and>
        loop_vector src n d = loop_vector src 0 dst"
  using assms
proof (induction n rule: int_ge_induct)
  case base
  show ?case by (simp add: ei_vector_operator_equals_unroller.simps)
next
  case (step i)
  then obtain d where d: "ei_vector_operator_equals_unroller D i src dst = Some d"
    "size_e d = size_e dst" "loop_vector src i d = loop_vector src 0 dst"
    by auto
  have lt: "i < size_e d" using step.prems d by simp
  have nxt: "loop_vector src (i + 1) (copy_index d src i) = loop_vector src 0 dst"
    using d(3) lt by (simp add: loop_vector.simps [of src i d])
  show ?case
  proof (cases "i = 0")
    case True
    then have "d = dst" using d(1) by (simp add: ei_vector_operator_equals_unroller.simps)
    then show ?thesis using nxt True
      by (subst ei_vector_operator_equals_unroller.simps) simp
  next
    case False
    then have "i + 1 \<noteq> 0" "i + 1 \<noteq> 1" "i + 1 \<noteq> D" using step by auto
    then show ?thesis using nxt d
      by (subst ei_vector_operator_equals_unroller.simps) simp
  qed
qed

lemma vector_unroller_is_loop:
  assumes "0 \<le> size_e dst" "D \<le> 1 \<or> size_e dst < D"
  shows "ei_vector_operator_equals_unroller D (size_e dst) src dst = Some (loop_vector src 0 dst)"
proof -
  obtain d where d: "ei_vector_operator_equals_unroller D (size_e dst) src dst = Some d"
    "size_e d = size_e dst" "loop_vector src (size_e dst) d = loop_vector src 0 dst"
    using vector_unroller_prefix [OF assms(1) order_refl assms(2)] by blast
  have "loop_vector src (size_e dst) d = d"
    using d(2) by (simp add: loop_vector.simps [of src "size_e dst" d])
  then show ?thesis using d by simp
qed

lemma shape_loop_colmajor:
  "rows (loop_colmajor other j dst) = rows dst \<and>
   cols (loop_colmajor other j dst) = cols dst \<and>
   RowsAtCompileTime (loop_colmajor other j dst) = RowsAtCompileTime dst \<and>
   ColsAtCompileTime (loop_colmajor other j dst) = ColsAtCompileTime dst"
proof (induction other j dst rule: loop_colmajor.induct)
  case (1 other j dst)
  then show ?case
    by (simp add: loop_colmajor.simps [of other j dst] shape_loop_colmajor_rows)
qed

lemma matrix_unroller_step:
  assumes "0 \<le> c" "D \<le> 1 \<or> c + 1 < D"
    and "ei_matrix_operator_equals_unroller D c src dst = Some d"
    and "RowsAtCompileTime dst = R" "0 < R"
  shows "ei_matrix_operator_equals_unroller D (c + 1) src dst =
           Some (copy_coeff d src (c mod R, c div R))"
proof (cases "c = 0")
  case True
  then have "d = dst" using assms(3) by (simp add: ei_matrix_operator_equals_unroller.simps)
  then show ?thesis using True
    by (subst ei_matrix_operator_equals_unroller.simps) simp
next
  case False
  then have "c + 1 \<noteq> 0" "c + 1 \<noteq> 1" "c + 1 \<noteq> D" using assms by auto
  then show ?thesis using assms
    by (subst ei_matrix_operator_equals_unroller.simps) (simp add: sdiv_smod_nonneg)
qed

lemma matrix_unroller_column:
  assumes "0 \<le> i"
  shows "i \<le> R \<Longrightarrow> 0 < R \<Longrightarrow> 0 \<le> j \<Longrightarrow> D \<le> 1 \<or> j * R + i < D \<Longrightarrow>
    ei_matrix_operator_equals_unroller D (j * R) src dst = Some d0 \<Longrightarrow>
    rows d0 = R \<Longrightarrow> RowsAtCompileTime dst = R \<Longrightarrow>
    \<exists>d. ei_matrix_operator_equals_unroller D (j * R + i) src dst = Some d \<and>
        rows d = R \<and> cols d = cols d0 \<and>
        loop_colmajor_rows src j i d = loop_colmajor_rows src j 0 d0"
  using assms
proof (induction i rule: int_ge_induct)
  case base
  then show ?case by simp
next
  case (step i)
  then obtain d where d: "ei_matrix_operator_equals_unroller D (j * R + i) src dst = Some d"
    "rows d = R" "cols d = cols d0"
    "loop_colmajor_rows src j i d = loop_colmajor_rows src j 0 d0"
    by auto
  have c: "0 \<le> j * R + i" using step by simp
  have dm: "(j * R + i) mod R = i" "(j * R + i) div R = j"
    using step by simp_all
  have "ei_matrix_operator_equals_unroller D (j * R + i + 1) src dst =
          Some (copy_coeff d src (i, j))"
    using matrix_unroller_step [OF c _ d(1) step.prems(7)] step.prems dm
    by (simp add: add.assoc)
  moreover have "loop_colmajor_rows src j (i + 1) (copy_coeff d src (i, j)) =
      loop_colmajor_rows src j 0 d0"
    using d step.prems by (simp add: loop_colmajor_rows.simps [of src j i d])
  ultimately show ?case using d by (simp add: add.assoc)
qed

lemma matrix_unroller_prefix:
  assumes "0 \<le> j"
  shows "j \<le> cols dst \<Longrightarrow> 0 < R \<Longrightarrow> rows dst = R \<Longrightarrow> RowsAtCompileTime dst = R \<Longrightarrow>
    D \<le> 1 \<or> j * R < D \<Longrightarrow>
    \<exists>d. ei_matrix_operator_equals_unroller D (j * R) src dst = Some d \<and>
        rows d = R \<and> cols d = cols dst \<and>
        loop_colmajor src j d = loop_colmajor src 0 dst"
  using assms
proof (induction j rule: int_ge_induct)
  case base
  then show ?case by (simp add: ei_matrix_operator_equals_unroller.simps)
next
  case (step j)
  have le: "j * R \<le> (j + 1) * R" using step by (simp add: distrib_right)
  have pre: "j \<le> cols dst" "D \<le> 1 \<or> j * R < D"
    using step.prems(1,5) le by linarith+
  obtain d0 where d0: "ei_matrix_operator_equals_unroller D (j * R) src dst = Some d0"
    "rows d0 = R" "cols d0 = cols dst"
    "loop_colmajor src j d0 = loop_colmajor src 0 dst"
    using step.IH [OF pre(1) step.prems(2,3,4) pre(2)] by blast
  have "D \<le> 1 \<or> j * R + R < D" using step.prems by (simp add: distrib_right)
  then obtain d where d: "ei_matrix_operator_equals_unroller D (j * R + R) src dst = Some d"
    "rows d = R" "cols d = cols d0"
    "loop_colmajor_rows src j R d = loop_colmajor_rows src j 0 d0"
    using matrix_unroller_column [of R R j D src dst d0] step d0 by auto
  have "loop_colmajor_rows src j R d = d"
    using d(2) by (simp add: loop_colmajor_rows.simps [of src j R d])
  then have "loop_colmajor src (j + 1) d = loop_colmajor src 0 dst"
    using d d0 step by (simp add: loop_colmajor.simps [of src j d0])
  then show ?case using d d0 by (simp add: distrib_right)
qed

lemma loop_colmajor_no_rows:
  "rows dst \<le> 0 \<Longrightarrow> loop_colmajor src j dst = dst"
proof (induction src j dst rule: loop_colmajor.induct)
  case (1 other j dst)
  have "loop_colmajor_rows other j 0 dst = dst"
    using 1 by (simp add: loop_colmajor_rows.simps [of other j 0 dst])
  then show ?case using 1 by (simp add: loop_colmajor.simps [of other j dst])
qed

lemma matrix_unroller_is_loop:
  assumes "rows dst = RowsAtCompileTime dst" "0 \<le> rows dst" "0 \<le> cols dst"
    and "D \<le> 1 \<or> rows dst * cols dst < D"
  shows "ei_matrix_operator_equals_unroller D (rows dst * cols dst) src dst =
           Some (loop_colmajor src 0 dst)"
proof (cases "rows dst = 0")
  case True
  then show ?thesis
    by (simp add: ei_matrix_operator_equals_unroller.simps loop_colmajor_no_rows)
next
  case False
  then have R: "0 < rows dst" using assms by simp
  obtain d where d: "ei_matrix_operator_equals_unroller D (cols dst * rows dst) src dst = Some d"
    "cols d = cols dst" "loop_colmajor src (cols dst) d = loop_colmajor src 0 dst"
    using matrix_unroller_prefix [OF assms(3) order_refl R refl, of D src] assms
    by (auto simp: mult.commute)
  have "loop_colmajor src (cols dst) d = d"
    using d(2) by (simp add: loop_colmajor.simps [of src "cols dst" d])
  then show ?thesis using d by (simp add: mult.commute)
qed

lemma vector_unroller_returns:
  assumes "n = D \<or> 0 \<le> n"
  shows "\<exists>d. ei_vector_operator_equals_unroller D n src dst = Some d"
proof (cases "0 \<le> n")
  case True
  then show ?thesis by (rule vector_unroller_terminates)
next
  case False
  then have "n = D" using assms by simp
  then show ?thesis by (subst ei_vector_operator_equals_unroller.simps) simp
qed

lemma matrix_unroller_returns:
  assumes "n = D \<or> n = 0 \<or> n = 1 \<or> 0 \<le> n \<and> RowsAtCompileTime dst \<noteq> 0"
  shows "\<exists>d. ei_matrix_operator_equals_unroller D n src dst = Some d"
proof (cases "0 \<le> n \<and> RowsAtCompileTime dst \<noteq> 0")
  case True
  then show ?thesis using matrix_unroller_terminates by blast
next
  case False
  then have "n = D \<or> n = 0 \<or> n = 1" using assms by blast
  then show ?thesis by (subst ei_matrix_operator_equals_unroller.simps) auto
qed

lemma consistent_size:
  assumes "consistent D e" "RowsAtCompileTime e \<noteq> D" "ColsAtCompileTime e \<noteq> D"
  shows "SizeAtCompileTime D e = rows e * cols e" "RowsAtCompileTime e = rows e"
    "ColsAtCompileTime e = cols e" "0 \<le> rows e" "0 \<le> cols e" "0 \<le> rows e * cols e"
  using assms by (auto simp: consistent_def SizeAtCompileTime_def)

lemma size_of_vector:
  assumes "rows e = 1 \<or> cols e = 1" "representable (rows e)" "representable (cols e)"
  shows "size_e e = rows e * cols e"
  using assms by (auto simp: size_e_def cpp_int_representable)

lemma unrolled_vector_path:
  assumes "consistent D dst" "RowsAtCompileTime dst \<noteq> D" "ColsAtCompileTime dst \<noteq> D"
    and "D \<le> 1 \<or> SizeAtCompileTime D dst < D" "IsVectorAtCompileTime dst"
  shows "ei_vector_operator_equals_unroller D (SizeAtCompileTime D dst) src dst =
           Some (loop_vector src 0 dst)"
proof -
  have "rows dst = 1 \<or> cols dst = 1" "representable (rows dst)" "representable (cols dst)"
    using assms(1,2,3,5) by (auto simp: consistent_def IsVectorAtCompileTime_def)
  then have "size_e dst = rows dst * cols dst" by (rule size_of_vector)
  then show ?thesis
    using vector_unroller_is_loop [of dst D src] consistent_size [OF assms(1,2,3)] assms(4)
    by simp
qed

lemma unrolled_matrix_path:
  assumes "consistent D dst" "RowsAtCompileTime dst \<noteq> D" "ColsAtCompileTime dst \<noteq> D"
    and "D \<le> 1 \<or> SizeAtCompileTime D dst < D"
  shows "ei_matrix_operator_equals_unroller D (SizeAtCompileTime D dst) src dst =
           Some (loop_colmajor src 0 dst)"
  using matrix_unroller_is_loop [of dst D src] consistent_size [OF assms(1,2,3)] assms(4)
  by simp

subsection \<open>The loops on a source that does not read the destination\<close>

lemma frame_loop_colmajor_rows:
  "loop_colmajor_rows src j i dst = dst\<lparr>coeffs := coeffs (loop_colmajor_rows src j i dst)\<rparr>"
proof (induction src j i dst rule: loop_colmajor_rows.induct)
  case (1 other j i dst)
  show ?case
  proof (cases "i < rows dst")
    case True
    have "loop_colmajor_rows other j i dst =
          loop_colmajor_rows other j (i + 1) (copy_coeff dst other (i, j))"
      using True by (simp add: loop_colmajor_rows.simps [of other j i dst])
    moreover have "loop_colmajor_rows other j (i + 1) (copy_coeff dst other (i, j)) =
          dst\<lparr>coeffs := coeffs (loop_colmajor_rows other j (i + 1) (copy_coeff dst other (i, j)))\<rparr>"
      by (subst 1 [OF True]) (simp add: copy_coeff_def)
    ultimately show ?thesis by simp
  next
    case False
    then show ?thesis by (simp add: loop_colmajor_rows.simps [of other j i dst])
  qed
qed

lemma coeffs_loop_colmajor_rows:
  assumes "\<And>m. coeff src m = f"
  shows "coeffs (loop_colmajor_rows src j i dst) p =
    (if snd p = j \<and> i \<le> fst p \<and> fst p < rows dst then f p else coeffs dst p)"
  using assms
proof (induction src j i dst rule: loop_colmajor_rows.induct)
  case (1 other j i dst)
  show ?case
  proof (cases "i < rows dst")
    case True
    have "coeffs (loop_colmajor_rows other j i dst) p =
          coeffs (loop_colmajor_rows other j (i + 1) (copy_coeff dst other (i, j))) p"
      using True by (simp add: loop_colmajor_rows.simps [of other j i dst])
    also have "\<dots> = (if snd p = j \<and> i + 1 \<le> fst p \<and> fst p < rows dst
                      then f p else coeffs (copy_coeff dst other (i, j)) p)"
      using "1.IH" [OF True "1.prems"] by simp
    also have "\<dots> = (if snd p = j \<and> i \<le> fst p \<and> fst p < rows dst then f p else coeffs dst p)"
      using True "1.prems" by (cases p) (auto simp: copy_coeff_def)
    finally show ?thesis .
  next
    case False
    then show ?thesis by (auto simp: loop_colmajor_rows.simps [of other j i dst])
  qed
qed

lemma frame_loop_colmajor:
  "loop_colmajor src j dst = dst\<lparr>coeffs := coeffs (loop_colmajor src j dst)\<rparr>"
proof (induction src j dst rule: loop_colmajor.induct)
  case (1 other j dst)
  show ?case
  proof (cases "j < cols dst")
    case True
    have "loop_colmajor other j dst =
          loop_colmajor other (j + 1) (loop_colmajor_rows other j 0 dst)"
      using True by (simp add: loop_colmajor.simps [of other j dst])
    moreover have "loop_colmajor other (j + 1) (loop_colmajor_rows other j 0 dst) =
          dst\<lparr>coeffs := coeffs (loop_colmajor other (j + 1) (loop_colmajor_rows other j 0 dst))\<rparr>"
      by (subst 1 [OF True], subst frame_loop_colmajor_rows) simp
    ultimately show ?thesis by simp
  next
    case False
    then show ?thesis by (simp add: loop_colmajor.simps [of other j dst])
  qed
qed

lemma coeffs_loop_colmajor:
  assumes "\<And>m. coeff src m = f"
  shows "coeffs (loop_colmajor src j dst) p =
    (if j \<le> snd p \<and> snd p < cols dst \<and> 0 \<le> fst p \<and> fst p < rows dst then f p else coeffs dst p)"
  using assms
proof (induction src j dst rule: loop_colmajor.induct)
  case (1 other j dst)
  show ?case
  proof (cases "j < cols dst")
    case True
    have "coeffs (loop_colmajor other j dst) p =
          coeffs (loop_colmajor other (j + 1) (loop_colmajor_rows other j 0 dst)) p"
      using True by (simp add: loop_colmajor.simps [of other j dst])
    also have "\<dots> = (if j + 1 \<le> snd p \<and> snd p < cols dst \<and> 0 \<le> fst p \<and> fst p < rows dst
                      then f p else coeffs (loop_colmajor_rows other j 0 dst) p)"
      using "1.IH" [OF True "1.prems"] by (simp add: shape_loop_colmajor_rows)
    also have "\<dots> = (if j \<le> snd p \<and> snd p < cols dst \<and> 0 \<le> fst p \<and> fst p < rows dst then f p else coeffs dst p)"
      using True by (auto simp: coeffs_loop_colmajor_rows [of other f, OF "1.prems"])
    finally show ?thesis .
  next
    case False
    then show ?thesis by (auto simp: loop_colmajor.simps [of other j dst])
  qed
qed

lemma frame_loop_rowmajor_cols:
  "loop_rowmajor_cols src i j dst = dst\<lparr>coeffs := coeffs (loop_rowmajor_cols src i j dst)\<rparr>"
proof (induction src i j dst rule: loop_rowmajor_cols.induct)
  case (1 other i j dst)
  show ?case
  proof (cases "j < cols dst")
    case True
    have "loop_rowmajor_cols other i j dst =
          loop_rowmajor_cols other i (j + 1) (copy_coeff dst other (i, j))"
      using True by (simp add: loop_rowmajor_cols.simps [of other i j dst])
    moreover have "loop_rowmajor_cols other i (j + 1) (copy_coeff dst other (i, j)) =
          dst\<lparr>coeffs := coeffs (loop_rowmajor_cols other i (j + 1) (copy_coeff dst other (i, j)))\<rparr>"
      by (subst 1 [OF True]) (simp add: copy_coeff_def)
    ultimately show ?thesis by simp
  next
    case False
    then show ?thesis by (simp add: loop_rowmajor_cols.simps [of other i j dst])
  qed
qed

lemma coeffs_loop_rowmajor_cols:
  assumes "\<And>m. coeff src m = f"
  shows "coeffs (loop_rowmajor_cols src i j dst) p =
    (if fst p = i \<and> j \<le> snd p \<and> snd p < cols dst then f p else coeffs dst p)"
  using assms
proof (induction src i j dst rule: loop_rowmajor_cols.induct)
  case (1 other i j dst)
  show ?case
  proof (cases "j < cols dst")
    case True
    have "coeffs (loop_rowmajor_cols other i j dst) p =
          coeffs (loop_rowmajor_cols other i (j + 1) (copy_coeff dst other (i, j))) p"
      using True by (simp add: loop_rowmajor_cols.simps [of other i j dst])
    also have "\<dots> = (if fst p = i \<and> j + 1 \<le> snd p \<and> snd p < cols dst
                      then f p else coeffs (copy_coeff dst other (i, j)) p)"
      using "1.IH" [OF True "1.prems"] by simp
    also have "\<dots> = (if fst p = i \<and> j \<le> snd p \<and> snd p < cols dst then f p else coeffs dst p)"
      using True "1.prems" by (cases p) (auto simp: copy_coeff_def)
    finally show ?thesis .
  next
    case False
    then show ?thesis by (auto simp: loop_rowmajor_cols.simps [of other i j dst])
  qed
qed

lemma frame_loop_rowmajor:
  "loop_rowmajor src i dst = dst\<lparr>coeffs := coeffs (loop_rowmajor src i dst)\<rparr>"
proof (induction src i dst rule: loop_rowmajor.induct)
  case (1 other i dst)
  show ?case
  proof (cases "i < rows dst")
    case True
    have "loop_rowmajor other i dst =
          loop_rowmajor other (i + 1) (loop_rowmajor_cols other i 0 dst)"
      using True by (simp add: loop_rowmajor.simps [of other i dst])
    moreover have "loop_rowmajor other (i + 1) (loop_rowmajor_cols other i 0 dst) =
          dst\<lparr>coeffs := coeffs (loop_rowmajor other (i + 1) (loop_rowmajor_cols other i 0 dst))\<rparr>"
      by (subst 1 [OF True], subst frame_loop_rowmajor_cols) simp
    ultimately show ?thesis by simp
  next
    case False
    then show ?thesis by (simp add: loop_rowmajor.simps [of other i dst])
  qed
qed

lemma coeffs_loop_rowmajor:
  assumes "\<And>m. coeff src m = f"
  shows "coeffs (loop_rowmajor src i dst) p =
    (if i \<le> fst p \<and> fst p < rows dst \<and> 0 \<le> snd p \<and> snd p < cols dst then f p else coeffs dst p)"
  using assms
proof (induction src i dst rule: loop_rowmajor.induct)
  case (1 other i dst)
  show ?case
  proof (cases "i < rows dst")
    case True
    have "coeffs (loop_rowmajor other i dst) p =
          coeffs (loop_rowmajor other (i + 1) (loop_rowmajor_cols other i 0 dst)) p"
      using True by (simp add: loop_rowmajor.simps [of other i dst])
    also have "\<dots> = (if i + 1 \<le> fst p \<and> fst p < rows dst \<and> 0 \<le> snd p \<and> snd p < cols dst
                      then f p else coeffs (loop_rowmajor_cols other i 0 dst) p)"
      using "1.IH" [OF True "1.prems"] by (simp add: shape_loop_rowmajor_cols)
    also have "\<dots> = (if i \<le> fst p \<and> fst p < rows dst \<and> 0 \<le> snd p \<and> snd p < cols dst then f p else coeffs dst p)"
      using True by (auto simp: coeffs_loop_rowmajor_cols [of other f, OF "1.prems"])
    finally show ?thesis .
  next
    case False
    then show ?thesis by (auto simp: loop_rowmajor.simps [of other i dst])
  qed
qed

lemma loop_colmajor_assigned:
  assumes "\<And>m. coeff src m = f"
  shows "loop_colmajor src 0 dst = assigned dst f"
proof -
  have "coeffs (loop_colmajor src 0 dst) = (\<lambda>p. if inside dst p then f p else coeffs dst p)"
    by (rule ext) (auto simp: coeffs_loop_colmajor [of src f, OF assms] inside_def)
  then show ?thesis
    by (subst frame_loop_colmajor) (simp add: assigned_def)
qed

lemma loop_rowmajor_assigned:
  assumes "\<And>m. coeff src m = f"
  shows "loop_rowmajor src 0 dst = assigned dst f"
proof -
  have "coeffs (loop_rowmajor src 0 dst) = (\<lambda>p. if inside dst p then f p else coeffs dst p)"
    by (rule ext) (auto simp: coeffs_loop_rowmajor [of src f, OF assms] inside_def)
  then show ?thesis
    by (subst frame_loop_rowmajor) (simp add: assigned_def)
qed

lemma frame_loop_vector:
  "loop_vector src i dst = dst\<lparr>coeffs := coeffs (loop_vector src i dst)\<rparr>"
proof (induction src i dst rule: loop_vector.induct)
  case (1 other i dst)
  show ?case
  proof (cases "i < size_e dst")
    case True
    have "loop_vector other i dst = loop_vector other (i + 1) (copy_index dst other i)"
      using True by (simp add: loop_vector.simps [of other i dst])
    moreover have "loop_vector other (i + 1) (copy_index dst other i) =
          dst\<lparr>coeffs := coeffs (loop_vector other (i + 1) (copy_index dst other i))\<rparr>"
      by (subst 1 [OF True]) (simp add: copy_index_def)
    ultimately show ?thesis by simp
  next
    case False
    then show ?thesis by (simp add: loop_vector.simps [of other i dst])
  qed
qed

lemma index_of_position [simp]: "index_of e (index_position e k) = k"
  by (simp add: index_of_def index_position_def)

lemma index_position_eq [simp]: "(index_position e k = index_position e l) = (k = l)"
  by (simp add: index_position_def)

lemma coeffs_loop_vector:
  assumes "\<And>m. coeff src m = f"
  shows "coeffs (loop_vector src i dst) p =
    (if \<exists>k. i \<le> k \<and> k < size_e dst \<and> p = index_position dst k
     then f (index_position src (index_of dst p)) else coeffs dst p)"
  using assms
proof (induction src i dst rule: loop_vector.induct)
  case (1 other i dst)
  show ?case
  proof (cases "i < size_e dst")
    case True
    have same: "index_position (copy_index dst other i) = index_position dst"
      "index_of (copy_index dst other i) = index_of dst"
      by (simp_all add: fun_eq_iff index_position_def index_of_def)
    have "coeffs (loop_vector other i dst) p =
          coeffs (loop_vector other (i + 1) (copy_index dst other i)) p"
      using True by (simp add: loop_vector.simps [of other i dst])
    also have "\<dots> = (if \<exists>k. i + 1 \<le> k \<and> k < size_e (copy_index dst other i) \<and>
                              p = index_position (copy_index dst other i) k
                      then f (index_position other (index_of (copy_index dst other i) p))
                      else coeffs (copy_index dst other i) p)"
      by (rule "1.IH" [OF True "1.prems"])
    also have "\<dots> = (if \<exists>k. i + 1 \<le> k \<and> k < size_e dst \<and> p = index_position dst k
                      then f (index_position other (index_of dst p))
                      else coeffs (copy_index dst other i) p)"
      by (simp only: same shape_copy_index)
    also have "\<dots> = (if \<exists>k. i \<le> k \<and> k < size_e dst \<and> p = index_position dst k
                      then f (index_position other (index_of dst p)) else coeffs dst p)"
    proof (cases "p = index_position dst i")
      case True
      have "\<not> (\<exists>k. i + 1 \<le> k \<and> k < size_e dst \<and> p = index_position dst k)"
        using True by auto
      moreover have "\<exists>k. i \<le> k \<and> k < size_e dst \<and> p = index_position dst k"
        using True \<open>i < size_e dst\<close> by auto
      ultimately show ?thesis using True "1.prems" by (simp add: copy_index_def)
    next
      case False
      have "(\<exists>k. i + 1 \<le> k \<and> k < size_e dst \<and> p = index_position dst k) =
            (\<exists>k. i \<le> k \<and> k < size_e dst \<and> p = index_position dst k)"
        using False by (metis add1_zle_eq order_le_less)
      then show ?thesis using False by (auto simp: copy_index_def)
    qed
    finally show ?thesis .
  next
    case False
    then show ?thesis by (auto simp: loop_vector.simps [of other i dst])
  qed
qed

lemma vector_positions:
  assumes "rows e = 1 \<or> cols e = 1" "0 \<le> rows e" "0 \<le> cols e"
    and "representable (rows e)" "representable (cols e)"
  shows "(\<exists>k. 0 \<le> k \<and> k < size_e e \<and> p = index_position e k) = inside e p"
proof -
  have size: "size_e e = rows e * cols e"
    using assms(1,4,5) by (rule size_of_vector)
  show ?thesis
  proof (cases "rows e = 1")
    case True
    then show ?thesis
      by (cases p) (auto simp: size index_position_def inside_def)
  next
    case False
    then have "cols e = 1" using assms by simp
    then show ?thesis using False
      by (cases p) (auto simp: size index_position_def inside_def)
  qed
qed

lemma loop_vector_assigned:
  assumes "\<And>m. coeff src m = f" "rows dst = 1 \<or> cols dst = 1" "0 \<le> rows dst" "0 \<le> cols dst"
    and "representable (rows dst)" "representable (cols dst)"
    and "rows src = rows dst"
  shows "loop_vector src 0 dst = assigned dst f"
proof -
  have "coeffs (loop_vector src 0 dst) = (\<lambda>p. if inside dst p then f p else coeffs dst p)"
  proof
    fix p
    have "index_position src (index_of dst p) = p"
      if "p = index_position dst k" for k
      using that assms(7) by (simp add: index_position_def index_of_def)
    then show "coeffs (loop_vector src 0 dst) p = (if inside dst p then f p else coeffs dst p)"
      using vector_positions [OF assms(2,3,4,5,6), of p]
      by (auto simp: coeffs_loop_vector [of src f, OF assms(1)])
  qed
  then show ?thesis
    by (subst frame_loop_vector) (simp add: assigned_def)
qed




lemma lazyAssign_mismatch:
  assumes "consistent D dst"
  shows "(lazyAssign D L dst src = Some (Inl DimensionMismatch)) =
     (if IsVectorAtCompileTime dst \<and> IsVectorAtCompileTime src
      then size_e dst \<noteq> size_e src
      else rows dst \<noteq> rows src \<or> cols dst \<noteq> cols src)"
proof -
  have size: "SizeAtCompileTime D dst = D \<or> 0 \<le> SizeAtCompileTime D dst"
    using assms by (auto simp: consistent_def SizeAtCompileTime_def)
  have "SizeAtCompileTime D dst = D \<or> SizeAtCompileTime D dst = 0 \<or>
      SizeAtCompileTime D dst = 1 \<or>
      0 \<le> SizeAtCompileTime D dst \<and> RowsAtCompileTime dst \<noteq> 0"
    using assms by (auto simp: consistent_def SizeAtCompileTime_def)
  then obtain m where
    m: "ei_matrix_operator_equals_unroller D (SizeAtCompileTime D dst) src dst = Some m"
    using matrix_unroller_returns by blast
  obtain v where v: "ei_vector_operator_equals_unroller D (SizeAtCompileTime D dst) src dst = Some v"
    using vector_unroller_returns [OF size] by blast
  show ?thesis by (simp add: lazyAssign_def v m)
qed

lemma lazyAssign_copies_when:
  assumes "consistent D dst" "rows dst = rows src" "cols dst = cols src"
    and "\<And>m. coeff src m = f"
    and "IsVectorAtCompileTime dst \<Longrightarrow> rows dst = 1 \<or> cols dst = 1"
    and "unroll D L dst src \<Longrightarrow>
      RowsAtCompileTime dst \<noteq> D \<and> ColsAtCompileTime dst \<noteq> D \<and>
      (D \<le> 1 \<or> SizeAtCompileTime D dst < D)"
  shows "lazyAssign D L dst src = Some (Inr (assigned dst f))"
proof -
  have vec: "loop_vector src 0 dst = assigned dst f" if "IsVectorAtCompileTime dst"
  proof -
    have "rows dst = 1 \<or> cols dst = 1" "0 \<le> rows dst" "0 \<le> cols dst"
      "representable (rows dst)" "representable (cols dst)"
      using that assms(1,5) by (auto simp: consistent_def)
    then show ?thesis
      by (rule loop_vector_assigned [OF assms(4) _ _ _ _ _ assms(2) [symmetric]])
  qed
  show ?thesis
  proof (cases "unroll D L dst src")
    case True
    then have known: "RowsAtCompileTime dst \<noteq> D" "ColsAtCompileTime dst \<noteq> D"
      and below: "D \<le> 1 \<or> SizeAtCompileTime D dst < D"
      using assms(6) by blast+
    show ?thesis
    proof (cases "IsVectorAtCompileTime dst \<and> IsVectorAtCompileTime src")
      case vector: True
      have "ei_vector_operator_equals_unroller D (SizeAtCompileTime D dst) src dst =
          Some (loop_vector src 0 dst)"
        by (rule unrolled_vector_path [OF assms(1) known below conjunct1 [OF vector]])
      moreover have "size_e dst = size_e src"
        using assms(2,3) by (simp add: size_e_def)
      moreover have "loop_vector src 0 dst = assigned dst f"
        using vector by (simp add: vec)
      moreover have "(IsVectorAtCompileTime dst \<and> IsVectorAtCompileTime src) = True"
        using vector by simp
      ultimately show ?thesis using True by (simp add: lazyAssign_def)
    next
      case False
      then have matrix: "(IsVectorAtCompileTime dst \<and> IsVectorAtCompileTime src) = False"
        by simp
      show ?thesis using True assms(2,3)
        by (simp add: lazyAssign_def matrix unrolled_matrix_path [OF assms(1) known below]
              loop_colmajor_assigned [of src f, OF assms(4)])
    qed
  next
    case False
    have "size_e dst = size_e src"
      using assms(2,3) by (simp add: size_e_def)
    then show ?thesis using False assms(2,3) vec
      by (simp add: lazyAssign_def loop_colmajor_assigned [of src f, OF assms(4)]
            loop_rowmajor_assigned [of src f, OF assms(4)])
  qed
qed


lemma lazyAssign_static_copies:
  assumes "consistent D dst" "rows dst = rows src" "cols dst = cols src"
    and "\<And>m. coeff src m = f"
    and "RowsAtCompileTime dst \<noteq> D" "ColsAtCompileTime dst \<noteq> D"
    and "\<not> unroll D L dst src \<or> D \<le> 1 \<or> SizeAtCompileTime D dst < D"
  shows "lazyAssign D L dst src = Some (Inr (assigned dst f))"
proof (rule lazyAssign_copies_when [OF assms(1,2,3,4)])
  assume "IsVectorAtCompileTime dst"
  then show "rows dst = 1 \<or> cols dst = 1"
    using assms(1,5,6) by (auto simp: IsVectorAtCompileTime_def consistent_def)
next
  assume "unroll D L dst src"
  then show "RowsAtCompileTime dst \<noteq> D \<and> ColsAtCompileTime dst \<noteq> D \<and>
      (D \<le> 1 \<or> SizeAtCompileTime D dst < D)"
    using assms(5,6,7) by blast
qed

text \<open>
  The unrolled path against the loop.  A destination of static size below the
  sentinel, on a budget that selects the unrolled path, and a second destination of
  the same static shape, on a budget that selects the loop, are assigned from the same
  source.  On one destination the two budgets give the same result, whatever the
  source reads.  For a source that does not read the destination, the two
  assignments fail together or leave the same coefficients in both destinations;
  for a source of the destinations' shape these are the coefficients of the source.
\<close>

lemma unrolled_path_agrees_with_loop:
  assumes "consistent Dynamic dst1" "consistent Dynamic dst2"
    and "RowsAtCompileTime dst1 \<noteq> Dynamic" "ColsAtCompileTime dst1 \<noteq> Dynamic"
    and "RowsAtCompileTime dst2 = RowsAtCompileTime dst1"
    and "ColsAtCompileTime dst2 = ColsAtCompileTime dst1"
    and "Dynamic \<le> 1 \<or> SizeAtCompileTime Dynamic dst1 < Dynamic"
    and "unroll Dynamic L1 dst1 src" "\<not> unroll Dynamic L2 dst2 src"
  shows "lazyAssign Dynamic L1 dst1 src = lazyAssign Dynamic L2 dst1 src"
    and "\<forall>m. coeff src m = f \<Longrightarrow>
      lazyAssign Dynamic L1 dst1 src = Some (Inl DimensionMismatch) \<and>
      lazyAssign Dynamic L2 dst2 src = Some (Inl DimensionMismatch) \<or>
      (\<exists>d1 d2. lazyAssign Dynamic L1 dst1 src = Some (Inr d1) \<and>
         lazyAssign Dynamic L2 dst2 src = Some (Inr d2) \<and>
         (\<forall>p. inside dst1 p \<longrightarrow> coeffs d1 p = coeffs d2 p))"
    and "\<forall>m. coeff src m = f \<Longrightarrow> rows src = rows dst1 \<Longrightarrow> cols src = cols dst1 \<Longrightarrow>
      lazyAssign Dynamic L1 dst1 src = Some (Inr (assigned dst1 f)) \<and>
      lazyAssign Dynamic L2 dst2 src = Some (Inr (assigned dst2 f)) \<and>
      (\<forall>p. inside dst1 p \<longrightarrow>
         coeffs (assigned dst1 f) p = f p \<and> coeffs (assigned dst2 f) p = f p)"
proof -
  have shape: "rows dst2 = rows dst1" "cols dst2 = cols dst1"
    using assms(1-6) by (auto simp: consistent_def)
  have known: "RowsAtCompileTime dst2 \<noteq> Dynamic" "ColsAtCompileTime dst2 \<noteq> Dynamic"
    using assms(3-6) by simp_all
  have isvec: "IsVectorAtCompileTime dst2 = IsVectorAtCompileTime dst1"
    using assms(5,6) by (simp add: IsVectorAtCompileTime_def)
  have sizes: "size_e dst2 = size_e dst1"
    using shape by (simp add: size_e_def)
  have "SizeAtCompileTime Dynamic dst2 = SizeAtCompileTime Dynamic dst1"
    using assms(5,6) by (simp add: SizeAtCompileTime_def)
  then have loop1: "\<not> unroll Dynamic L2 dst1 src"
    using assms(9) by (simp add: unroll_def)
  show same: "lazyAssign Dynamic L1 dst1 src = lazyAssign Dynamic L2 dst1 src"
  proof (cases "IsVectorAtCompileTime dst1 \<and> IsVectorAtCompileTime src")
    case True
    then have "(IsVectorAtCompileTime dst1 \<and> IsVectorAtCompileTime src) = True"
      by simp
    then show ?thesis using assms(8) loop1
      by (simp add: lazyAssign_def
            unrolled_vector_path [OF assms(1,3,4,7) conjunct1 [OF True]])
  next
    case False
    then have matrix: "(IsVectorAtCompileTime dst1 \<and> IsVectorAtCompileTime src) = False"
      by simp
    show ?thesis using assms(3,8) loop1
      by (simp add: lazyAssign_def matrix unrolled_matrix_path [OF assms(1,3,4,7)])
  qed
  have matching: "lazyAssign Dynamic L1 dst1 src = Some (Inr (assigned dst1 f)) \<and>
      lazyAssign Dynamic L2 dst2 src = Some (Inr (assigned dst2 f))"
    if na: "\<forall>m. coeff src m = f" and r: "rows src = rows dst1" and c: "cols src = cols dst1"
  proof -
    have f: "\<And>m. coeff src m = f" using na by simp
    have b1: "\<not> unroll Dynamic L1 dst1 src \<or> Dynamic \<le> 1 \<or>
        SizeAtCompileTime Dynamic dst1 < Dynamic"
      using assms(7) by blast
    have b2: "\<not> unroll Dynamic L2 dst2 src \<or> Dynamic \<le> 1 \<or>
        SizeAtCompileTime Dynamic dst2 < Dynamic"
      using assms(9) by blast
    have s2: "rows dst2 = rows src" "cols dst2 = cols src"
      using shape r c by simp_all
    show ?thesis
      using lazyAssign_static_copies [OF assms(1) r [symmetric] c [symmetric] f assms(3,4) b1]
        lazyAssign_static_copies [OF assms(2) s2 f known b2]
      by simp
  qed
  have within: "coeffs (assigned dst1 f) p = f p \<and> coeffs (assigned dst2 f) p = f p"
    if "inside dst1 p" for p
    using that shape by (simp add: assigned_def inside_def)
  show "lazyAssign Dynamic L1 dst1 src = Some (Inr (assigned dst1 f)) \<and>
      lazyAssign Dynamic L2 dst2 src = Some (Inr (assigned dst2 f)) \<and>
      (\<forall>p. inside dst1 p \<longrightarrow>
         coeffs (assigned dst1 f) p = f p \<and> coeffs (assigned dst2 f) p = f p)"
    if "\<forall>m. coeff src m = f" "rows src = rows dst1" "cols src = cols dst1"
    using matching [OF that] within by blast
  show "lazyAssign Dynamic L1 dst1 src = Some (Inl DimensionMismatch) \<and>
      lazyAssign Dynamic L2 dst2 src = Some (Inl DimensionMismatch) \<or>
      (\<exists>d1 d2. lazyAssign Dynamic L1 dst1 src = Some (Inr d1) \<and>
         lazyAssign Dynamic L2 dst2 src = Some (Inr d2) \<and>
         (\<forall>p. inside dst1 p \<longrightarrow> coeffs d1 p = coeffs d2 p))"
    if na: "\<forall>m. coeff src m = f"
  proof (cases "IsVectorAtCompileTime dst1 \<and> IsVectorAtCompileTime src")
    case True
    show ?thesis
    proof (cases "size_e dst1 = size_e src")
      case False
      have "lazyAssign Dynamic L1 dst1 src = Some (Inl DimensionMismatch)"
        using True False by (simp add: lazyAssign_mismatch [OF assms(1)])
      moreover have "lazyAssign Dynamic L2 dst2 src = Some (Inl DimensionMismatch)"
        using True False isvec sizes by (simp add: lazyAssign_mismatch [OF assms(2)])
      ultimately show ?thesis by blast
    next
      case equal: True
      have f: "\<And>m. coeff src m = f" using na by simp
      have path1: "(IsVectorAtCompileTime dst1 \<and> IsVectorAtCompileTime src) = True"
        using True by simp
      then have path2: "(IsVectorAtCompileTime dst2 \<and> IsVectorAtCompileTime src) = True"
        using isvec by simp
      have v1: "lazyAssign Dynamic L1 dst1 src = Some (Inr (loop_vector src 0 dst1))"
        using path1 equal assms(8)
        by (simp add: lazyAssign_def
              unrolled_vector_path [OF assms(1,3,4,7) conjunct1 [OF True]])
      have v2: "lazyAssign Dynamic L2 dst2 src = Some (Inr (loop_vector src 0 dst2))"
        using path2 equal sizes assms(9) by (simp add: lazyAssign_def)
      have vector: "rows dst1 = 1 \<or> cols dst1 = 1" "0 \<le> rows dst1" "0 \<le> cols dst1"
        "representable (rows dst1)" "representable (cols dst1)"
        using True assms(1,3,4) by (auto simp: consistent_def IsVectorAtCompileTime_def)
      have "coeffs (loop_vector src 0 dst1) p = coeffs (loop_vector src 0 dst2) p"
        if "inside dst1 p" for p
      proof -
        have p1: "\<exists>k. 0 \<le> k \<and> k < size_e dst1 \<and> p = index_position dst1 k"
          using vector_positions [OF vector, of p] that by simp
        then have p2: "\<exists>k. 0 \<le> k \<and> k < size_e dst2 \<and> p = index_position dst2 k"
          using sizes shape by (simp add: index_position_def)
        have "index_of dst2 p = index_of dst1 p"
          using shape by (simp add: index_of_def)
        then show ?thesis
          using p1 p2 by (simp add: coeffs_loop_vector [of src f, OF f])
      qed
      then show ?thesis using v1 v2 by blast
    qed
  next
    case False
    show ?thesis
    proof (cases "rows src = rows dst1 \<and> cols src = cols dst1")
      case True
      then have both: "lazyAssign Dynamic L1 dst1 src = Some (Inr (assigned dst1 f)) \<and>
          lazyAssign Dynamic L2 dst2 src = Some (Inr (assigned dst2 f))"
        using matching [OF na] by blast
      have "\<forall>p. inside dst1 p \<longrightarrow> coeffs (assigned dst1 f) p = coeffs (assigned dst2 f) p"
        using within by simp
      then show ?thesis using both by blast
    next
      case differ: False
      have "lazyAssign Dynamic L1 dst1 src = Some (Inl DimensionMismatch)"
        using False differ by (auto simp: lazyAssign_mismatch [OF assms(1)])
      moreover have "lazyAssign Dynamic L2 dst2 src = Some (Inl DimensionMismatch)"
        using False differ isvec shape by (auto simp: lazyAssign_mismatch [OF assms(2)])
      ultimately show ?thesis by blast
    qed
  qed
qed





text \<open>
  The flag \<open>unroll\<close> and the recursion of the unrollers.  When the sentinel times the
  cost exceeds the budget, the unrolled path is selected iff the size is known and
  size times cost is within the budget.  A count other than 0, 1 and the sentinel is
  the count one less followed by one copy (on the matrix path for a number of rows
  that is not 0, the divisor of \<open>row\<close> and \<open>col\<close>); the count 0 and the sentinel are
  no-ops; every count that is not negative returns (lemmas
  \<open>vector_unroller_returns\<close> and \<open>matrix_unroller_returns\<close>).
\<close>

lemma unroll_below_sentinel:
  assumes "L < Dynamic * CoeffReadCost src"
  shows "unroll Dynamic L dst src =
    (SizeAtCompileTime Dynamic dst \<noteq> Dynamic \<and>
     SizeAtCompileTime Dynamic dst * CoeffReadCost src \<le> L)"
  using assms by (auto simp: unroll_def)

lemma vector_unroller_counts_down:
  assumes "n \<noteq> 0" "n \<noteq> 1" "n \<noteq> Dynamic"
  shows "ei_vector_operator_equals_unroller Dynamic n src dst =
    Option.bind (ei_vector_operator_equals_unroller Dynamic (n - 1) src dst)
      (\<lambda>d. Some (copy_index d src (n - 1)))"
  using assms by (subst ei_vector_operator_equals_unroller.simps) (simp add: Let_def)

lemma matrix_unroller_counts_down:
  assumes "n \<noteq> 0" "n \<noteq> 1" "n \<noteq> Dynamic" "RowsAtCompileTime dst \<noteq> 0"
  shows "ei_matrix_operator_equals_unroller Dynamic n src dst =
    Option.bind (ei_matrix_operator_equals_unroller Dynamic (n - 1) src dst)
      (\<lambda>d. Some (copy_coeff d src ((n - 1) smod RowsAtCompileTime dst,
                                    (n - 1) sdiv RowsAtCompileTime dst)))"
  using assms by (subst ei_matrix_operator_equals_unroller.simps) (simp add: Let_def)

lemma unroller_no_op:
  "ei_matrix_operator_equals_unroller Dynamic 0 src dst = Some dst"
  "ei_vector_operator_equals_unroller Dynamic 0 src dst = Some dst"
  "Dynamic \<noteq> 1 \<Longrightarrow> ei_matrix_operator_equals_unroller Dynamic Dynamic src dst = Some dst"
  "Dynamic \<noteq> 1 \<Longrightarrow> ei_vector_operator_equals_unroller Dynamic Dynamic src dst = Some dst"
  by (simp_all add: ei_matrix_operator_equals_unroller.simps [of Dynamic 0]
        ei_vector_operator_equals_unroller.simps [of Dynamic 0]
        ei_matrix_operator_equals_unroller.simps [of Dynamic Dynamic]
        ei_vector_operator_equals_unroller.simps [of Dynamic Dynamic])


section \<open>Properties of the conjugate gradient solver\<close>

lemma absNew_loop_body:
  "l_absNew (loop_body ops mat precond st) =
     sc_real ops (vec_dot ops (l_residual (loop_body ops mat precond st))
       (pc_solve ops precond (l_residual (loop_body ops mat precond st))))"
  by (simp add: loop_body_def Let_def)

lemma cg_while_iterates:
  "\<exists>k. cg_while ops mat precond maxIters tol absInit st = (loop_body ops mat precond ^^ k) st \<and>
       (\<forall>j<k. loop_condition ops maxIters tol absInit ((loop_body ops mat precond ^^ j) st)) \<and>
       \<not> loop_condition ops maxIters tol absInit ((loop_body ops mat precond ^^ k) st) \<and>
       l_i (cg_while ops mat precond maxIters tol absInit st) = l_i st + int k \<and>
       l_i st + int k \<le> max (l_i st) maxIters"
proof (induction ops mat precond maxIters tol absInit st rule: cg_while.induct)
  case (1 ops mat precond maxIters tol absInit st)
  let ?body = "loop_body ops mat precond"
  let ?cond = "loop_condition ops maxIters tol absInit"
  show ?case
  proof (cases "?cond st")
    case True
    then obtain k where k:
      "cg_while ops mat precond maxIters tol absInit (?body st) = (?body ^^ k) (?body st)"
      "\<forall>j<k. ?cond ((?body ^^ j) (?body st))"
      "\<not> ?cond ((?body ^^ k) (?body st))"
      "l_i (cg_while ops mat precond maxIters tol absInit (?body st)) = l_i (?body st) + int k"
      "l_i (?body st) + int k \<le> max (l_i (?body st)) maxIters"
      using "1.IH" by blast
    have unfold: "cg_while ops mat precond maxIters tol absInit st =
        cg_while ops mat precond maxIters tol absInit (?body st)"
      using True by (simp add: cg_while.simps [of ops mat precond maxIters tol absInit st])
    have below: "l_i st < maxIters" using True by (simp add: loop_condition_def)
    have "\<forall>j<Suc k. ?cond ((?body ^^ j) st)"
    proof (intro allI impI)
      fix j assume "j < Suc k"
      then show "?cond ((?body ^^ j) st)"
        using True k(2) by (cases j) (simp_all add: funpow_swap1)
    qed
    moreover have "cg_while ops mat precond maxIters tol absInit st = (?body ^^ Suc k) st"
      using unfold k(1) by (simp add: funpow_swap1)
    moreover have "\<not> ?cond ((?body ^^ Suc k) st)"
      using k(3) by (simp add: funpow_swap1)
    moreover have "l_i (cg_while ops mat precond maxIters tol absInit st) = l_i st + int (Suc k)"
      using unfold k(4) by simp
    moreover have "l_i st + int (Suc k) \<le> max (l_i st) maxIters"
      using k(5) below by simp
    ultimately show ?thesis by blast
  next
    case False
    then have "cg_while ops mat precond maxIters tol absInit st = st"
      by (simp add: cg_while.simps [of ops mat precond maxIters tol absInit st])
    then show ?thesis using False by (intro exI [of _ 0]) simp
  qed
qed

lemma l_i_locals_after: "l_i (locals_after ops mat rhs x precond j) = int j"
  by (induction j) (simp_all add: locals_after_def initial_locals_def Let_def)

lemma absNew_locals_after:
  "l_absNew (locals_after ops mat rhs x precond j) =
     sc_real ops (vec_dot ops (l_residual (locals_after ops mat rhs x precond j))
       (pc_solve ops precond (l_residual (locals_after ops mat rhs x precond j))))"
proof (cases j)
  case 0
  then show ?thesis by (simp add: locals_after_def initial_locals_def Let_def)
next
  case (Suc n)
  then show ?thesis
    using absNew_loop_body [of ops mat precond "locals_after ops mat rhs x precond n"]
    by (simp add: locals_after_def)
qed

text \<open>
  Claim C2, as amended.  The loop runs exactly while \<open>i < maxIters\<close> and
  \<open>absNew > tol * tol * absInit\<close>: there is a number \<open>k\<close> of iterations such that the
  condition holds before each of them and fails after the last.  After \<open>j\<close> iterations
  the counter is \<open>j\<close> and \<open>absNew\<close> is the real part of the inner product of the residual
  with the preconditioned residual; \<open>absInit\<close> is its value before the loop.  The
  function reports \<open>k\<close> iterations and the error \<open>sqrt(abs(absNew / absInit))\<close>.  The count
  is at most \<open>maxIters\<close> when \<open>maxIters\<close> is not negative, and 0 otherwise.
\<close>

theorem conjugate_gradient_loop:
  "\<exists>k. (\<forall>j<k. loop_condition ops maxIters tol (l_absNew (locals_after ops mat rhs x precond 0))
               (locals_after ops mat rhs x precond j)) \<and>
       \<not> loop_condition ops maxIters tol (l_absNew (locals_after ops mat rhs x precond 0))
               (locals_after ops mat rhs x precond k) \<and>
       (\<forall>j. l_i (locals_after ops mat rhs x precond j) = int j \<and>
            l_absNew (locals_after ops mat rhs x precond j) =
              sc_real ops (vec_dot ops (l_residual (locals_after ops mat rhs x precond j))
                (pc_solve ops precond (l_residual (locals_after ops mat rhs x precond j))))) \<and>
       conjugate_gradient ops mat rhs x precond maxIters tol =
         (l_x (locals_after ops mat rhs x precond k), int k,
          re_sqrt ops (re_abs ops (re_div ops (l_absNew (locals_after ops mat rhs x precond k))
            (l_absNew (locals_after ops mat rhs x precond 0))))) \<and>
       int k \<le> max 0 maxIters \<and>
       (0 \<le> maxIters \<longrightarrow> int k \<le> maxIters)"
proof -
  let ?start = "initial_locals ops mat rhs x precond"
  let ?absInit = "l_absNew ?start"
  have zero: "locals_after ops mat rhs x precond 0 = ?start"
    by (simp add: locals_after_def)
  obtain k where k:
    "cg_while ops mat precond maxIters tol ?absInit ?start = locals_after ops mat rhs x precond k"
    "\<forall>j<k. loop_condition ops maxIters tol ?absInit (locals_after ops mat rhs x precond j)"
    "\<not> loop_condition ops maxIters tol ?absInit (locals_after ops mat rhs x precond k)"
    "l_i ?start + int k \<le> max (l_i ?start) maxIters"
    using cg_while_iterates [of ops mat precond maxIters tol ?absInit ?start]
    unfolding locals_after_def by blast
  have result: "conjugate_gradient ops mat rhs x precond maxIters tol =
      (l_x (locals_after ops mat rhs x precond k), int k,
       re_sqrt ops (re_abs ops (re_div ops (l_absNew (locals_after ops mat rhs x precond k))
         ?absInit)))"
    using k(1) by (simp add: conjugate_gradient_def Let_def l_i_locals_after)
  have start_i: "l_i ?start = 0" by (simp add: initial_locals_def Let_def)
  have bound: "int k \<le> max 0 maxIters" using k(4) by (simp add: start_i)
  then have bound': "0 \<le> maxIters \<longrightarrow> int k \<le> maxIters" by auto
  show ?thesis
    unfolding zero
    using k(2,3) result bound bound' l_i_locals_after [of ops mat rhs x precond]
      absNew_locals_after [of ops mat rhs x precond]
    by blast
qed

theorem conjugate_gradient_loop_witness:
  "conjugate_gradient dense [[Finite 2]] [Finite 2] [Finite 0] () 1000 (Finite (1 / 2 ^ 52)) =
     ([Finite 1], 1, Finite 0) \<and>
   fst (snd (conjugate_gradient dense [[Finite 2]] [Finite 2] [Finite 0] () 1000
     (Finite (1 / 2 ^ 52)))) \<le> 1000"
proof -
  have "conjugate_gradient dense [[Finite 2]] [Finite 2] [Finite 0] () 1000
      (Finite (1 / 2 ^ 52)) = ([Finite 1], 1, Finite 0)"
    by (simp add: conjugate_gradient_def initial_locals_def dense_def cg_while.simps
          loop_condition_def loop_body_def dense_dot_def ieee_sub_def Let_def)
  moreover have "fst (snd (conjugate_gradient dense [[Finite 2]] [Finite 2] [Finite 0] () 1000
      (Finite (1 / 2 ^ 52)))) \<le> 1000"
    using conjugate_gradient_loop [of dense 1000 "Finite (1 / 2 ^ 52)" "[[Finite 2]]"
        "[Finite 2]" "[Finite 0]" "()"]
    by auto
  ultimately show ?thesis by simp
qed

text \<open>
  The bound by \<open>maxIters\<close> as first stated fails for a negative \<open>maxIters\<close>: no iteration
  runs and the count 0 is above it.
\<close>

theorem negative_maxIterations_counterexample:
  "conjugate_gradient dense [[Finite 2]] [Finite 2] [Finite 0] () (- 1) (Finite (1 / 2 ^ 52)) =
     ([Finite 0], 0, Finite 1) \<and>
   \<not> fst (snd (conjugate_gradient dense [[Finite 2]] [Finite 2] [Finite 0] () (- 1)
     (Finite (1 / 2 ^ 52)))) \<le> - 1"
  by (simp add: conjugate_gradient_def initial_locals_def dense_def cg_while.simps
        loop_condition_def dense_dot_def ieee_sub_def Let_def)

lemma conjugate_gradient_degenerate:
  assumes "\<not> re_greater ops (l_absNew (initial_locals ops mat rhs x precond))
     (re_mul ops (re_mul ops tol tol) (l_absNew (initial_locals ops mat rhs x precond)))"
  shows "conjugate_gradient ops mat rhs x precond maxIters tol =
     (x, 0, re_sqrt ops (re_abs ops (re_div ops (l_absNew (initial_locals ops mat rhs x precond))
        (l_absNew (initial_locals ops mat rhs x precond)))))"
proof -
  let ?start = "initial_locals ops mat rhs x precond"
  have "cg_while ops mat precond maxIters tol (l_absNew ?start) ?start = ?start"
    using assms
    by (simp add: cg_while.simps [of ops mat precond maxIters tol "l_absNew ?start" ?start]
          loop_condition_def)
  moreover have "l_x ?start = x" "l_i ?start = 0"
    by (simp_all add: initial_locals_def Let_def)
  ultimately show ?thesis by (simp add: conjugate_gradient_def Let_def)
qed

text \<open>
  Claim C1.  The specification asks that, when the right-hand side is exactly \<open>A x0\<close>,
  the run from \<open>x0\<close> reports 0 iterations, the error 0 and \<open>Success\<close>.  The code performs
  0 iterations but divides \<open>absNew = 0\<close> by \<open>absInit = 0\<close>: for the system \<open>1 x = 1\<close> and
  the guess 1, \<open>_solve\<close> leaves not-a-number in \<open>m_error\<close> and \<open>NoConvergence\<close> in
  \<open>m_info\<close>, and so does \<open>x = cg.solve(b)\<close> for the right-hand side 0.
\<close>

theorem degenerate_residual_not_a_number:
  "solve_internal dense unit_system [Finite 1] [Finite 1] =
     Inr (unit_system\<lparr>m_iterations := 0, m_error := NaN, m_isInitialized := True,
                      m_info := NoConvergence\<rparr>, [Finite 1]) \<and>
   materialize dense unit_system [Finite 0] [Finite 9] =
     Inr (unit_system\<lparr>m_iterations := 0, m_error := NaN, m_isInitialized := True,
                      m_info := NoConvergence\<rparr>, [Finite 0])"
  by (simp add: materialize_def solve_def evalTo_def solve_internal_def unit_system_def
        compute_def ConjugateGradient_default_def init_def raw_solver_def
        conjugate_gradient_def initial_locals_def cg_while.simps loop_condition_def
        dense_def dense_dot_def ieee_sub_def Let_def)

lemma solve_checks:
  "solve ops cg b =
     (if \<not> m_isInitialized cg then Inl NotInitialized
      else case mp_matrix cg of None \<Rightarrow> Inl NullPointer
        | Some A \<Rightarrow> if mat_rows ops A = vec_rows ops b then Inr \<lparr>m_dec = cg, m_rhs = b\<rparr>
                    else Inl DimensionMismatch)"
  by (simp add: solve_def split: option.splits)

text \<open>
  Claim C3, as amended.  A freshly constructed solver is not initialised; on a solver
  that is not initialised \<open>iterations()\<close>, \<open>error()\<close>, \<open>info()\<close>, \<open>solve()\<close> and
  \<open>solveWithGuess()\<close> fail with \<open>NotInitialized\<close>, and the setters leave it so; on an
  initialised solver \<open>iterations()\<close> and \<open>error()\<close> return the members.
\<close>

theorem uninitialized_access:
  "\<not> m_isInitialized (ConjugateGradient_default ops uninitialised) \<and>
   (\<not> m_isInitialized cg \<longrightarrow>
      iterations cg = Inl NotInitialized \<and> error cg = Inl NotInitialized \<and>
      info cg = Inl NotInitialized \<and> solve ops cg b = Inl NotInitialized \<and>
      solveWithGuess ops objs a cg b x0 = Inl NotInitialized \<and>
      \<not> m_isInitialized (setTolerance cg tol) \<and>
      \<not> m_isInitialized (setMaxIterations cg maxIters)) \<and>
   (m_isInitialized cg \<longrightarrow>
      iterations cg = Inr (m_iterations cg) \<and> error cg = Inr (m_error cg))"
  by (simp add: ConjugateGradient_default_def init_def iterations_def error_def info_def
        solve_def solveWithGuess_def setTolerance_def setMaxIterations_def)

theorem uninitialized_access_witness:
  "iterations (ConjugateGradient_default dense raw_solver) = Inl NotInitialized \<and>
   error (ConjugateGradient_default dense raw_solver) = Inl NotInitialized \<and>
   solve dense (ConjugateGradient_default dense raw_solver) [Finite 1] = Inl NotInitialized \<and>
   iterations unit_system = Inr 17 \<and> error unit_system = Inr (Finite 42)"
proof -
  have "m_isInitialized unit_system" "m_iterations unit_system = 17"
    "m_error unit_system = Finite 42"
    by (simp_all add: unit_system_def compute_def ConjugateGradient_default_def init_def
          raw_solver_def)
  then show ?thesis
    using uninitialized_access [of dense raw_solver "ConjugateGradient_default dense raw_solver"
        "[Finite 1]" "\<lambda>a. None" 0 "[Finite 1]" "Finite 1" 5]
      uninitialized_access [of dense raw_solver unit_system
        "[Finite 1]" "\<lambda>a. None" 0 "[Finite 1]" "Finite 1" 5]
    by simp
qed

text \<open>
  The accessors do not wait for a solve: after \<open>compute\<close> alone \<open>iterations()\<close> and
  \<open>error()\<close> pass their assertion and return what the unset members hold.
\<close>

theorem accessors_after_compute_counterexample:
  "iterations (compute dense (ConjugateGradient_default dense raw_solver) [[Finite 1]]) =
     Inr 17 \<and>
   iterations (compute dense (ConjugateGradient_default dense raw_solver) [[Finite 1]]) \<noteq>
     Inl NotInitialized \<and>
   error (compute dense (ConjugateGradient_default dense raw_solver) [[Finite 1]]) \<noteq>
     Inl NotInitialized"
  by (simp add: iterations_def error_def compute_def ConjugateGradient_default_def init_def
        raw_solver_def)

lemma solve_internal_initialized:
  "solve_internal ops cg b x = Inr (cg', x') \<Longrightarrow> m_isInitialized cg'"
  by (auto simp: solve_internal_def split: option.splits prod.splits)

text \<open>
  Claim C10.  \<open>compute(A)\<close> checks nothing: it stores the address of \<open>A\<close>, has the
  preconditioner computed from \<open>A\<close>, sets \<open>m_isInitialized\<close>, changes no other member
  and returns the solver.  After it \<open>iterations\<close>, \<open>error\<close> and \<open>info\<close> return the members,
  and \<open>solve\<close> and \<open>solveWithGuess\<close> do not fail with \<open>NotInitialized\<close>; the setters and
  \<open>_solve\<close> keep a solver initialised.
\<close>

theorem compute_initializes:
  "mp_matrix (compute ops cg A) = Some A \<and>
   m_preconditioner (compute ops cg A) = pc_compute ops (m_preconditioner cg) A \<and>
   m_isInitialized (compute ops cg A) \<and>
   compute ops cg A = cg\<lparr>mp_matrix := Some A,
     m_preconditioner := pc_compute ops (m_preconditioner cg) A, m_isInitialized := True\<rparr> \<and>
   iterations (compute ops cg A) = Inr (m_iterations cg) \<and>
   error (compute ops cg A) = Inr (m_error cg) \<and>
   info (compute ops cg A) = Inr (m_info cg) \<and>
   solve ops (compute ops cg A) b \<noteq> Inl NotInitialized \<and>
   solveWithGuess ops objs a (compute ops cg A) b x0 \<noteq> Inl NotInitialized \<and>
   (m_isInitialized cg \<longrightarrow>
      m_isInitialized (setTolerance cg tol) \<and> m_isInitialized (setMaxIterations cg maxIters) \<and>
      (\<forall>cg' x'. solve_internal ops cg b x = Inr (cg', x') \<longrightarrow> m_isInitialized cg'))"
  using solve_internal_initialized [of ops cg b x]
  by (auto simp: compute_def iterations_def error_def info_def solve_def solveWithGuess_def
        setTolerance_def setMaxIterations_def split: option.splits)

theorem compute_initializes_witness:
  "mp_matrix unit_system = Some [[Finite 1]] \<and>
   m_isInitialized unit_system \<and>
   iterations unit_system = Inr 17 \<and>
   solve dense unit_system [Finite 1] \<noteq> Inl NotInitialized \<and>
   m_isInitialized (setMaxIterations unit_system 5)"
proof -
  note fresh = compute_initializes [of dense "ConjugateGradient_default dense raw_solver"
      "[[Finite 1]]" "[Finite 1]" "\<lambda>a. None" 0 "[Finite 1]" "Finite 1" 5 "[Finite 1]"]
  note again = compute_initializes [of dense unit_system
      "[[Finite 1]]" "[Finite 1]" "\<lambda>a. None" 0 "[Finite 1]" "Finite 1" 5 "[Finite 1]"]
  have matrix: "mp_matrix unit_system = Some [[Finite 1]]"
    using fresh unfolding unit_system_def by blast
  have initialized: "m_isInitialized unit_system"
    using fresh unfolding unit_system_def by blast
  have "m_iterations (ConjugateGradient_default dense raw_solver) = 17"
    by (simp add: ConjugateGradient_default_def init_def raw_solver_def)
  then have count: "iterations unit_system = Inr 17"
    using fresh unfolding unit_system_def by metis
  have solving: "solve dense unit_system [Finite 1] \<noteq> Inl NotInitialized"
    using fresh unfolding unit_system_def by blast
  have "m_isInitialized (setMaxIterations unit_system 5)"
    using again initialized by blast
  then show ?thesis using matrix initialized count solving by blast
qed

lemma solveWithGuess_dangling:
  assumes "solveWithGuess ops objs a cg b x0 = Inr (retval, objs')"
  shows "evalTo_with_guess ops objs' retval dst = Inl DanglingReference"
  using assms
  by (auto simp: solveWithGuess_def retval_with_guess_ctor_def evalTo_with_guess_def Let_def
        split: if_splits option.splits)

text \<open>
  Claim C5.  The specification asks that the object returned by \<open>solveWithGuess\<close>
  initialises \<open>dst = x0\<close> and runs in place.  In the code the reference \<open>m_guess\<close> is
  bound to the constructor's by-value parameter, which is gone when the constructor
  returns: evaluating \<open>dst = cg.solveWithGuess(b, x0)\<close> reads a dangling reference.
\<close>

theorem guess_reference_dangles:
  "materialize_with_guess dense (\<lambda>a. None) 0 unit_system [Finite 1] [Finite 1] [Finite 9] =
     Inl DanglingReference"
  by (simp add: materialize_with_guess_def solveWithGuess_def retval_with_guess_ctor_def
        evalTo_with_guess_def unit_system_def compute_def ConjugateGradient_default_def
        init_def raw_solver_def dense_def)

end
